theory Spec2Isabelle
  imports Complex_Main
begin

section \<open>The page, the protection object and the environment\<close>

text \<open>
  \<^verbatim>\<open>dev.js\<close> defines one class, \<^verbatim>\<open>DevToolsProtection\<close>, and instantiates it once when the
  script loads. The object's fields, the parts of the document it touches, the
  listeners and timers it registers and the console form one state record; every method
  takes the state and returns the new one. The values a method reads from the browser
  (window dimensions, whether the console inspects logged objects, how long a
  \<^verbatim>\<open>debugger\<close> statement took, whether a console or clipboard call throws, which globals
  are functions, the document's ready state) form the environment of one callback run.

  The document is modelled as the children of \<^verbatim>\<open>head\<close> and of \<^verbatim>\<open>body\<close>, both assumed to
  exist. A node has a reference (its identity), a tag, an \<^verbatim>\<open>id\<close> attribute, a text and a
  flag for the click listener that \<^verbatim>\<open>showProtectionOverlay\<close> attaches; style sheets and
  markup texts are not modelled, and non-ASCII glyphs of console messages are left out.

  Time is not modelled: a timer is an entry of the list of pending timers, with the delay
  it was registered with, and may fire at any moment. A console call either appends to the
  console's output or throws, as the environment says; so does the clipboard write, whose
  asynchronous rejection is outside the model.
\<close>

record node =
  ref :: nat
  tag :: string
  nid :: string
  ntext :: string
  clickGuard :: bool

text \<open>
  \<^verbatim>\<open>this.consoleSpamInterval\<close> is never assigned by the constructor, so it starts as
  \<^verbatim>\<open>undefined\<close>; later it holds a timer id or \<^verbatim>\<open>null\<close>. The code tests it for truthiness.
\<close>

datatype handle = Undefined | Null | TimerId nat

fun truthy :: "handle \<Rightarrow> bool" where
  "truthy Undefined = False"
| "truthy Null = False"
| "truthy (TimerId n) = (n \<noteq> 0)"

text \<open>The callbacks passed to \<^verbatim>\<open>setInterval\<close> and \<^verbatim>\<open>setTimeout\<close>.\<close>

datatype task =
    WindowSizeTick
  | ConsoleTick
  | TimingTick
  | InspectionTick
  | GlobalSymbolTick
  | SpamTick
  | RecheckTimeout
  | RedirectTimeout
  | ObserverCleanup nat
  | WarningHide nat nat
  | WarningRemove nat

record timer =
  tid :: nat
  repeating :: bool
  period :: nat
  callback :: task

datatype evtype =
    DOMContentLoaded | Keydown | ContextMenu | MouseDown | SelectStart | Message
  | DragStart | Copy | BeforePrint | Keyup | Click

text \<open>The listeners the class passes to \<^verbatim>\<open>addEventListener\<close> on the document or window.\<close>

datatype handler =
    DomReadyHandler
  | KeydownHandler
  | ContextMenuHandler
  | MiddleClickHandler
  | CtrlClickHandler
  | SelectStartHandler
  | MessageHandler
  | DragStartHandler
  | CopyHandler
  | BeforePrintHandler
  | KeyupHandler

datatype level = Log | Warn | Error

record state =
  isDevToolsOpen :: bool
  protectionActive :: bool
  warningShown :: bool
  detectionMethods :: "string list"
  consoleSpamInterval :: handle
  head_nodes :: "node list"
  body_nodes :: "node list"
  body_classes :: "string list"
  body_filter :: string
  body_opacity :: string
  body_pointerEvents :: string
  listeners :: "handler list"
  timers :: "timer list"
  observers :: "nat list"
  next_timer :: nat
  next_ref :: nat
  console_out :: "(level \<times> string) list"
  clipboard :: string
  globalInstance :: bool
  fetchWrapped :: bool

record env =
  outerHeight :: int
  innerHeight :: int
  outerWidth :: int
  innerWidth :: int
  consoleInspects :: bool
  debuggerElapsed :: real
  consoleThrows :: bool
  clipboardThrows :: bool
  callableGlobals :: "string list"
  readyStateLoading :: bool

record event =
  etype :: evtype
  key :: string
  ctrlKey :: bool
  shiftKey :: bool
  altKey :: bool
  metaKey :: bool
  button :: int
  targetRef :: nat
  targetTag :: string
  clipboardData :: "(string \<times> string) list option"
  cancelable :: bool
  defaultPrevented :: bool
  propagationStopped :: bool

text \<open>
  A JavaScript exception leaves the mutations made before it in place, so a run that throws
  still carries a state: \<open>Thrown s\<close> is an uncaught exception with the state it left.
\<close>

datatype 'a outcome = Done 'a | Thrown 'a

fun after :: "'a outcome \<Rightarrow> 'a" where
  "after (Done x) = x"
| "after (Thrown x) = x"

fun threw :: "'a outcome \<Rightarrow> bool" where
  "threw (Done x) = False"
| "threw (Thrown x) = True"

fun andThen :: "'a outcome \<Rightarrow> ('a \<Rightarrow> 'a outcome) \<Rightarrow> 'a outcome" where
  "andThen (Done x) f = f x"
| "andThen (Thrown x) f = Thrown x"

section \<open>Browser primitives\<close>

definition overlay_id :: string where
  "overlay_id = ''devtools-overlay''"

definition active_style_id :: string where
  "active_style_id = ''active-protection-style''"

definition document_nodes :: "state \<Rightarrow> node list" where
  "document_nodes s = head_nodes s @ body_nodes s"

definition getElementById :: "string \<Rightarrow> state \<Rightarrow> node option" where
  "getElementById i s = find (\<lambda>n. nid n = i) (document_nodes s)"

definition createElement :: "string \<Rightarrow> state \<Rightarrow> node \<times> state" where
  "createElement t s =
     (\<lparr>ref = next_ref s, tag = t, nid = '''', ntext = '''', clickGuard = False\<rparr>,
      s\<lparr>next_ref := Suc (next_ref s)\<rparr>)"

definition appendBody :: "node \<Rightarrow> state \<Rightarrow> state" where
  "appendBody n s = s\<lparr>body_nodes := body_nodes s @ [n]\<rparr>"

definition appendHead :: "node \<Rightarrow> state \<Rightarrow> state" where
  "appendHead n s = s\<lparr>head_nodes := head_nodes s @ [n]\<rparr>"

text \<open>\<^verbatim>\<open>node.remove()\<close> and the test \<^verbatim>\<open>node.parentNode\<close>, by reference.\<close>

definition removeNode :: "nat \<Rightarrow> state \<Rightarrow> state" where
  "removeNode r s =
     s\<lparr>head_nodes := filter (\<lambda>n. ref n \<noteq> r) (head_nodes s),
       body_nodes := filter (\<lambda>n. ref n \<noteq> r) (body_nodes s)\<rparr>"

definition hasParent :: "nat \<Rightarrow> state \<Rightarrow> bool" where
  "hasParent r s = (r \<in> ref ` set (document_nodes s))"

definition classList_add :: "string \<Rightarrow> state \<Rightarrow> state" where
  "classList_add c s =
     (if c \<in> set (body_classes s) then s else s\<lparr>body_classes := body_classes s @ [c]\<rparr>)"

definition classList_remove :: "string \<Rightarrow> state \<Rightarrow> state" where
  "classList_remove c s = s\<lparr>body_classes := removeAll c (body_classes s)\<rparr>"

definition setInterval :: "task \<Rightarrow> nat \<Rightarrow> state \<Rightarrow> nat \<times> state" where
  "setInterval cb ms s =
     (next_timer s,
      s\<lparr>timers := timers s @ [\<lparr>tid = next_timer s, repeating = True, period = ms, callback = cb\<rparr>],
        next_timer := Suc (next_timer s)\<rparr>)"

definition setTimeout :: "task \<Rightarrow> nat \<Rightarrow> state \<Rightarrow> nat \<times> state" where
  "setTimeout cb ms s =
     (next_timer s,
      s\<lparr>timers := timers s @ [\<lparr>tid = next_timer s, repeating = False, period = ms, callback = cb\<rparr>],
        next_timer := Suc (next_timer s)\<rparr>)"

fun clearInterval :: "handle \<Rightarrow> state \<Rightarrow> state" where
  "clearInterval (TimerId n) s = s\<lparr>timers := filter (\<lambda>t. tid t \<noteq> n) (timers s)\<rparr>"
| "clearInterval h s = s"

definition addEventListener :: "handler \<Rightarrow> state \<Rightarrow> state" where
  "addEventListener h s = s\<lparr>listeners := listeners s @ [h]\<rparr>"

definition console_call :: "env \<Rightarrow> level \<Rightarrow> string \<Rightarrow> state \<Rightarrow> state outcome" where
  "console_call env l msg s =
     (if consoleThrows env then Thrown s
      else Done (s\<lparr>console_out := console_out s @ [(l, msg)]\<rparr>))"

definition console_clear :: "env \<Rightarrow> state \<Rightarrow> state outcome" where
  "console_clear env s =
     (if consoleThrows env then Thrown s else Done (s\<lparr>console_out := []\<rparr>))"

text \<open>
  \<^verbatim>\<open>preventDefault\<close> sets the flag on a cancelable event only, as the DOM defines it.
\<close>

definition preventDefault :: "event \<Rightarrow> event" where
  "preventDefault e = (if cancelable e then e\<lparr>defaultPrevented := True\<rparr> else e)"

definition stopPropagation :: "event \<Rightarrow> event" where
  "stopPropagation e = e\<lparr>propagationStopped := True\<rparr>"

definition heightDiff :: "env \<Rightarrow> int" where
  "heightDiff env = outerHeight env - innerHeight env"

definition widthDiff :: "env \<Rightarrow> int" where
  "widthDiff env = outerWidth env - innerWidth env"

section \<open>The responder\<close>

text \<open>\<^verbatim>\<open>startConsoleSpam\<close>, lines 388-414: the guard and the timer's registration.\<close>

definition startConsoleSpam :: "state \<Rightarrow> state" where
  "startConsoleSpam s =
     (if truthy (consoleSpamInterval s) then s
      else (case setInterval SpamTick 100 s of
              (i, s') \<Rightarrow> s'\<lparr>consoleSpamInterval := TimerId i\<rparr>))"

text \<open>The \<^verbatim>\<open>for\<close> loop of the spam callback, lines 406-409.\<close>

fun spamLoop :: "nat \<Rightarrow> env \<Rightarrow> state \<Rightarrow> state outcome" where
  "spamLoop 0 env s = Done s"
| "spamLoop (Suc n) env s =
     andThen (console_call env Warn ''Access Denied'' s) (\<lambda>s.
     andThen (console_call env Error ''Unauthorized Access Attempt'' s) (spamLoop n env))"

text \<open>The body of the \<^verbatim>\<open>try\<close> block, lines 399-409.\<close>

definition spamBody :: "env \<Rightarrow> state \<Rightarrow> state outcome" where
  "spamBody env s =
     andThen (console_clear env s) (\<lambda>s.
     andThen (console_call env Log ''%c PROTECTED CONTENT'' s) (\<lambda>s.
     andThen (console_call env Log ''%cDeveloper tools detected and blocked.'' s) (\<lambda>s.
     andThen (console_call env Log ''%cClose developer tools to continue.'' s) (\<lambda>s.
     andThen (console_call env Log (''%c'' @ replicate 50 (CHR ''-'')) s) (\<lambda>s.
     spamLoop 20 env s)))))"

text \<open>The spam callback, lines 391-413: \<^verbatim>\<open>catch (e) {}\<close> turns a throw into a normal end.\<close>

definition spamTick :: "env \<Rightarrow> state \<Rightarrow> state outcome" where
  "spamTick env s =
     (if \<not> protectionActive s
      then Done ((clearInterval (consoleSpamInterval s) s)\<lparr>consoleSpamInterval := Null\<rparr>)
      else (case spamBody env s of Done s' \<Rightarrow> Done s' | Thrown s' \<Rightarrow> Done s'))"

definition applyVisualRestrictions :: "state \<Rightarrow> state" where
  "applyVisualRestrictions s =
     (case createElement ''style'' s of
        (style, s') \<Rightarrow> appendHead (style\<lparr>nid := active_style_id\<rparr>) s')"

definition activateProtection :: "env \<Rightarrow> state \<Rightarrow> state outcome" where
  "activateProtection env s =
     (if protectionActive s then Done s
      else andThen (console_call env Log ''Full protection activated''
                      (s\<lparr>protectionActive := True\<rparr>)) (\<lambda>s.
           Done (applyVisualRestrictions
                  (startConsoleSpam (classList_add ''protection-active'' s)))))"

definition showProtectionOverlay :: "state \<Rightarrow> state" where
  "showProtectionOverlay s =
     (case getElementById overlay_id s of
        Some existing \<Rightarrow> s
      | None \<Rightarrow>
          (case createElement ''div'' s of
             (overlay, s') \<Rightarrow>
               appendBody (overlay\<lparr>nid := overlay_id, ntext := ''Developer Tools Detected'',
                                   clickGuard := True\<rparr>) s'))"

definition handleDevToolsDetected :: "env \<Rightarrow> state \<Rightarrow> state outcome" where
  "handleDevToolsDetected env s =
     (if isDevToolsOpen s then Done s
      else andThen (console_call env Log ''Developer tools detected!''
                      (s\<lparr>isDevToolsOpen := True\<rparr>)) (\<lambda>s.
           andThen (activateProtection env s) (\<lambda>s.
           Done (snd (setTimeout RedirectTimeout 5000
                  ((showProtectionOverlay s)\<lparr>body_filter := ''blur(8px)'',
                                             body_opacity := ''0.3'',
                                             body_pointerEvents := ''none''\<rparr>))))))"

text \<open>The stop path inside \<^verbatim>\<open>deactivateProtection\<close>, lines 374-378.\<close>

definition stopConsoleSpam :: "state \<Rightarrow> state" where
  "stopConsoleSpam s =
     (if truthy (consoleSpamInterval s)
      then (clearInterval (consoleSpamInterval s) s)\<lparr>consoleSpamInterval := Null\<rparr>
      else s)"

definition removeById :: "string \<Rightarrow> state \<Rightarrow> state" where
  "removeById i s =
     (case getElementById i s of Some n \<Rightarrow> removeNode (ref n) s | None \<Rightarrow> s)"

definition deactivateProtection :: "env \<Rightarrow> state \<Rightarrow> state outcome" where
  "deactivateProtection env s =
     console_call env Log ''Protection deactivated - dev tools closed''
       ((stopConsoleSpam
          (removeById overlay_id
            (removeById active_style_id
              (classList_remove ''protection-active''
                (s\<lparr>protectionActive := False, isDevToolsOpen := False\<rparr>)))))
        \<lparr>body_filter := '''', body_pointerEvents := '''', body_opacity := ''''\<rparr>)"

section \<open>The probes\<close>

text \<open>\<^verbatim>\<open>checkIfReallyClosed\<close> only schedules the re-check; its callback is \<open>recheckTimeout\<close>.\<close>

definition checkIfReallyClosed :: "state \<Rightarrow> state" where
  "checkIfReallyClosed s = snd (setTimeout RecheckTimeout 1000 s)"

definition recheckTimeout :: "env \<Rightarrow> state \<Rightarrow> state outcome" where
  "recheckTimeout env s =
     (if heightDiff env < 100 \<and> widthDiff env < 100 then deactivateProtection env s
      else Done s)"

definition detectByWindowSize :: "env \<Rightarrow> state \<Rightarrow> state outcome" where
  "detectByWindowSize env s =
     (if heightDiff env > 150 \<or> widthDiff env > 150
      then (if \<not> isDevToolsOpen s then handleDevToolsDetected env s else Done s)
      else if isDevToolsOpen s \<and> heightDiff env < 100 \<and> widthDiff env < 100
      then Done (checkIfReallyClosed s)
      else Done s)"

text \<open>
  \<^verbatim>\<open>detectByConsole\<close>: the getter on the logged object runs when the console inspects its
  arguments, which the environment decides.
\<close>

definition detectByConsole :: "env \<Rightarrow> state \<Rightarrow> state outcome" where
  "detectByConsole env s =
     andThen (console_call env Log ''%c'' s) (\<lambda>s.
     if consoleInspects env \<and> \<not> isDevToolsOpen s then handleDevToolsDetected env s
     else Done s)"

definition detectByTiming :: "env \<Rightarrow> state \<Rightarrow> state outcome" where
  "detectByTiming env s =
     (if debuggerElapsed env > 100 \<and> \<not> isDevToolsOpen s then handleDevToolsDetected env s
      else Done s)"

definition detectElementInspection :: "state \<Rightarrow> state" where
  "detectElementInspection s =
     (case createElement ''div'' s of
        (testElement, s') \<Rightarrow>
          snd (setTimeout (ObserverCleanup (ref testElement)) 10000
                ((appendBody testElement s')\<lparr>observers := observers s' @ [ref testElement]\<rparr>)))"

text \<open>The observer's callback for one attribute mutation of the test element.\<close>

definition mutationCallback :: "env \<Rightarrow> nat \<Rightarrow> state \<Rightarrow> state outcome" where
  "mutationCallback env r s =
     (if r \<in> set (observers s) then handleDevToolsDetected env s else Done s)"

definition observerCleanup :: "nat \<Rightarrow> state \<Rightarrow> state" where
  "observerCleanup r s =
     (let s' = s\<lparr>observers := removeAll r (observers s)\<rparr>
      in if hasParent r s' then removeNode r s' else s')"

text \<open>
  \<^verbatim>\<open>detectExistingDevTools\<close>: the first method returns early; the second and the third both
  run when it does not.
\<close>

definition detectExistingDevTools :: "env \<Rightarrow> state \<Rightarrow> state outcome" where
  "detectExistingDevTools env s =
     (if heightDiff env > 160 \<or> widthDiff env > 160 then handleDevToolsDetected env s
      else andThen (console_call env Log ''[object HTMLImageElement]'' s) (\<lambda>s.
           andThen (if consoleInspects env then handleDevToolsDetected env s else Done s) (\<lambda>s.
           if debuggerElapsed env > 100 then handleDevToolsDetected env s else Done s)))"

definition suspiciousVars :: "string list" where
  "suspiciousVars = [''$'', ''$$'', ''$x'', ''inspect'', ''monitor'', ''debug'']"

fun globalSymbolScan :: "string list \<Rightarrow> env \<Rightarrow> state \<Rightarrow> state outcome" where
  "globalSymbolScan [] env s = Done s"
| "globalSymbolScan (varName # vs) env s =
     andThen (if varName \<in> set (callableGlobals env) then handleDevToolsDetected env s
              else Done s)
             (globalSymbolScan vs env)"

section \<open>Set-up\<close>

definition disableAllDevToolsAccess :: "state \<Rightarrow> state" where
  "disableAllDevToolsAccess s =
     addEventListener MiddleClickHandler
       (addEventListener ContextMenuHandler (addEventListener KeydownHandler s))"

definition startContinuousDetection :: "state \<Rightarrow> state" where
  "startContinuousDetection s =
     snd (setInterval InspectionTick 1500
       (snd (setInterval TimingTick 2000
         (snd (setInterval ConsoleTick 1000
           (snd (setInterval WindowSizeTick 500 s)))))))"

definition monitorNetworkTab :: "state \<Rightarrow> state" where
  "monitorNetworkTab s = s\<lparr>fetchWrapped := True\<rparr>"

definition preventInspection :: "state \<Rightarrow> state" where
  "preventInspection s =
     addEventListener SelectStartHandler (addEventListener CtrlClickHandler s)"

definition blockCommonBypassMethods :: "state \<Rightarrow> state" where
  "blockCommonBypassMethods s =
     snd (setInterval GlobalSymbolTick 2000 (addEventListener MessageHandler s))"

text \<open>
  The class body declares \<^verbatim>\<open>setupAdvancedProtection\<close> twice, at line 250 and at line 522. In
  a JavaScript class the later declaration of a method name replaces the earlier one, so
  every call \<^verbatim>\<open>this.setupAdvancedProtection()\<close> runs the body of line 522. The body of
  line 250 is kept here under its own name; nothing calls it.
\<close>

definition setupAdvancedProtection_line250 :: "state \<Rightarrow> state" where
  "setupAdvancedProtection_line250 s =
     blockCommonBypassMethods (preventInspection (monitorNetworkTab s))"

definition setupAdvancedListeners :: "state \<Rightarrow> state" where
  "setupAdvancedListeners s =
     addEventListener KeyupHandler
       (addEventListener BeforePrintHandler
         (addEventListener CopyHandler (addEventListener DragStartHandler s)))"

definition setupAdvancedProtection :: "state \<Rightarrow> state" where
  "setupAdvancedProtection s =
     (case createElement ''style'' s of
        (style, s') \<Rightarrow>
          setupAdvancedListeners (appendHead (style\<lparr>nid := ''comprehensive-protection''\<rparr>) s'))"

definition initImmediate :: "env \<Rightarrow> state \<Rightarrow> state outcome" where
  "initImmediate env s =
     andThen (detectExistingDevTools env s) (\<lambda>s.
     let s = startContinuousDetection (disableAllDevToolsAccess s)
     in if readyStateLoading env then Done (addEventListener DomReadyHandler s)
        else Done (setupAdvancedProtection s))"

definition constructor :: "env \<Rightarrow> state \<Rightarrow> state outcome" where
  "constructor env s =
     initImmediate env
       (s\<lparr>isDevToolsOpen := False, protectionActive := False, warningShown := False,
          detectionMethods := [], consoleSpamInterval := Undefined\<rparr>)"

text \<open>The immediately invoked function at the end of the script, lines 654-661.\<close>

definition loadScript :: "env \<Rightarrow> state \<Rightarrow> state outcome" where
  "loadScript env s =
     andThen (constructor env s) (\<lambda>s.
     console_call env Log ''Site protection loaded'' (s\<lparr>globalInstance := True\<rparr>))"

section \<open>The warning toast\<close>

definition showWarning :: "string \<Rightarrow> state \<Rightarrow> state" where
  "showWarning customMessage s =
     (if warningShown s then s
      else (case createElement ''div'' (s\<lparr>warningShown := True\<rparr>) of
              (warning, s1) \<Rightarrow>
                (case createElement ''style'' (appendBody (warning\<lparr>ntext := customMessage\<rparr>) s1) of
                   (animationStyle, s2) \<Rightarrow>
                     snd (setTimeout (WarningHide (ref warning) (ref animationStyle)) 4000
                           (appendHead animationStyle s2)))))"

definition warningHide :: "nat \<Rightarrow> nat \<Rightarrow> state \<Rightarrow> state" where
  "warningHide w a s =
     (let s1 = (if hasParent w s then snd (setTimeout (WarningRemove w) 400 s) else s);
          s2 = s1\<lparr>warningShown := False\<rparr>
      in if hasParent a s2 then removeNode a s2 else s2)"

section \<open>The listeners\<close>

text \<open>A listener runs on an event and the state; what it throws escapes to the browser.\<close>

fun withEvent :: "event \<Rightarrow> state outcome \<Rightarrow> (event \<times> state) outcome" where
  "withEvent e (Done s) = Done (e, s)"
| "withEvent e (Thrown s) = Thrown (e, s)"

text \<open>The tests of the \<^verbatim>\<open>keydown\<close> listener, lines 77-119, in the source's order.\<close>

definition blockedShortcut :: "event \<Rightarrow> bool" where
  "blockedShortcut e =
     (key e = ''F12''
      \<or> (ctrlKey e \<and> shiftKey e \<and> key e = ''I'')
      \<or> (ctrlKey e \<and> shiftKey e \<and> key e = ''J'')
      \<or> (ctrlKey e \<and> shiftKey e \<and> key e = ''C'')
      \<or> (ctrlKey e \<and> key e = ''u'')
      \<or> (ctrlKey e \<and> shiftKey e \<and> key e = ''K'')
      \<or> (ctrlKey e \<and> shiftKey e \<and> key e = ''E'')
      \<or> (ctrlKey e \<and> shiftKey e \<and> key e = ''S'')
      \<or> (metaKey e \<and> altKey e \<and> key e = ''I''))"

definition keydownListener :: "env \<Rightarrow> event \<Rightarrow> state \<Rightarrow> (event \<times> state) outcome" where
  "keydownListener env e s =
     (if blockedShortcut e
      then withEvent (stopPropagation (preventDefault e)) (handleDevToolsDetected env s)
      else Done (e, s))"

definition contextmenuListener :: "env \<Rightarrow> event \<Rightarrow> state \<Rightarrow> (event \<times> state) outcome" where
  "contextmenuListener env e s =
     withEvent (stopPropagation (preventDefault e)) (handleDevToolsDetected env s)"

text \<open>The \<^verbatim>\<open>mousedown\<close> listener of \<^verbatim>\<open>disableAllDevToolsAccess\<close>, lines 138-143.\<close>

definition middleClickListener :: "event \<Rightarrow> state \<Rightarrow> (event \<times> state) outcome" where
  "middleClickListener e s = (if button e = 1 then Done (preventDefault e, s) else Done (e, s))"

text \<open>The listeners of \<^verbatim>\<open>preventInspection\<close>, lines 273-288.\<close>

definition ctrlClickListener :: "env \<Rightarrow> event \<Rightarrow> state \<Rightarrow> (event \<times> state) outcome" where
  "ctrlClickListener env e s =
     (if ctrlKey e then withEvent (preventDefault e) (handleDevToolsDetected env s)
      else Done (e, s))"

definition selectstartListener :: "event \<Rightarrow> state \<Rightarrow> (event \<times> state) outcome" where
  "selectstartListener e s =
     (if protectionActive s then Done (preventDefault e, s) else Done (e, s))"

definition messageListener :: "event \<Rightarrow> state \<Rightarrow> (event \<times> state) outcome" where
  "messageListener e s =
     (if protectionActive s then Done (stopPropagation e, s) else Done (e, s))"

text \<open>The listeners of \<^verbatim>\<open>setupAdvancedListeners\<close>, lines 569-602.\<close>

definition dragstartListener :: "event \<Rightarrow> state \<Rightarrow> (event \<times> state) outcome" where
  "dragstartListener e s =
     (if protectionActive s \<or> targetTag e = ''IMG'' then Done (preventDefault e, s)
      else Done (e, s))"

definition setData :: "string \<Rightarrow> string \<Rightarrow> (string \<times> string) list \<Rightarrow> (string \<times> string) list" where
  "setData format v d = (format, v) # filter (\<lambda>p. fst p \<noteq> format) d"

text \<open>
  \<^verbatim>\<open>e.clipboardData.setData\<close> is not inside a \<^verbatim>\<open>try\<close>: on an event without clipboard data
  the property access throws.
\<close>

definition copyListener :: "event \<Rightarrow> state \<Rightarrow> (event \<times> state) outcome" where
  "copyListener e s =
     (if protectionActive s
      then (case clipboardData (preventDefault e) of
              None \<Rightarrow> Thrown (preventDefault e, s)
            | Some d \<Rightarrow>
                Done ((preventDefault e)
                        \<lparr>clipboardData := Some (setData ''text/plain'' ''Copying disabled'' d)\<rparr>, s))
      else Done (e, s))"

definition beforeprintListener :: "event \<Rightarrow> state \<Rightarrow> (event \<times> state) outcome" where
  "beforeprintListener e s = Done (preventDefault e, showWarning ''Printing is disabled'' s)"

definition writeText :: "env \<Rightarrow> string \<Rightarrow> state \<Rightarrow> state outcome" where
  "writeText env txt s = (if clipboardThrows env then Thrown s else Done (s\<lparr>clipboard := txt\<rparr>))"

text \<open>The \<^verbatim>\<open>try\<close>/\<^verbatim>\<open>catch\<close> of lines 596-600.\<close>

definition tryWriteText :: "env \<Rightarrow> string \<Rightarrow> state \<Rightarrow> state" where
  "tryWriteText env txt s = (case writeText env txt s of Done s' \<Rightarrow> s' | Thrown s' \<Rightarrow> s')"

definition keyupListener :: "env \<Rightarrow> event \<Rightarrow> state \<Rightarrow> (event \<times> state) outcome" where
  "keyupListener env e s =
     (if key e = ''PrintScreen''
      then withEvent e (andThen (handleDevToolsDetected env s) (\<lambda>s.
             Done (tryWriteText env ''Screenshot blocked'' s)))
      else Done (e, s))"

text \<open>The click listener that \<^verbatim>\<open>showProtectionOverlay\<close> attaches to the overlay node.\<close>

definition overlayClickListener :: "event \<Rightarrow> event" where
  "overlayClickListener e = stopPropagation (preventDefault e)"

fun handler_type :: "handler \<Rightarrow> evtype" where
  "handler_type DomReadyHandler = DOMContentLoaded"
| "handler_type KeydownHandler = Keydown"
| "handler_type ContextMenuHandler = ContextMenu"
| "handler_type MiddleClickHandler = MouseDown"
| "handler_type CtrlClickHandler = MouseDown"
| "handler_type SelectStartHandler = SelectStart"
| "handler_type MessageHandler = Message"
| "handler_type DragStartHandler = DragStart"
| "handler_type CopyHandler = Copy"
| "handler_type BeforePrintHandler = BeforePrint"
| "handler_type KeyupHandler = Keyup"

fun run_handler :: "handler \<Rightarrow> env \<Rightarrow> event \<Rightarrow> state \<Rightarrow> (event \<times> state) outcome" where
  "run_handler DomReadyHandler env e s = Done (e, setupAdvancedProtection s)"
| "run_handler KeydownHandler env e s = keydownListener env e s"
| "run_handler ContextMenuHandler env e s = contextmenuListener env e s"
| "run_handler MiddleClickHandler env e s = middleClickListener e s"
| "run_handler CtrlClickHandler env e s = ctrlClickListener env e s"
| "run_handler SelectStartHandler env e s = selectstartListener e s"
| "run_handler MessageHandler env e s = messageListener e s"
| "run_handler DragStartHandler env e s = dragstartListener e s"
| "run_handler CopyHandler env e s = copyListener e s"
| "run_handler BeforePrintHandler env e s = beforeprintListener e s"
| "run_handler KeyupHandler env e s = keyupListener env e s"

section \<open>The browser's event loop\<close>

text \<open>
  All listeners of one event type sit on the same object (the document or the window), so
  \<^verbatim>\<open>stopPropagation\<close> keeps none of them from running: the browser runs them in the order of
  registration, and an exception in one is reported and does not stop the next.
\<close>

fun run_listeners :: "handler list \<Rightarrow> env \<Rightarrow> event \<Rightarrow> state \<Rightarrow> (event \<times> state) outcome" where
  "run_listeners [] env e s = Done (e, s)"
| "run_listeners (h # hs) env e s =
     (case run_handler h env e s of
        Done (e', s') \<Rightarrow> run_listeners hs env e' s'
      | Thrown (e', s') \<Rightarrow> Thrown (after (run_listeners hs env e' s')))"

definition dispatch :: "env \<Rightarrow> event \<Rightarrow> state \<Rightarrow> (event \<times> state) outcome" where
  "dispatch env e s =
     (if etype e = Click
      then Done (if \<exists>n \<in> set (body_nodes s). ref n = targetRef e \<and> clickGuard n
                 then overlayClickListener e else e, s)
      else run_listeners (filter (\<lambda>h. handler_type h = etype e) (listeners s)) env e s)"

fun run_task :: "task \<Rightarrow> env \<Rightarrow> state \<Rightarrow> state outcome" where
  "run_task WindowSizeTick env s = detectByWindowSize env s"
| "run_task ConsoleTick env s = detectByConsole env s"
| "run_task TimingTick env s = detectByTiming env s"
| "run_task InspectionTick env s = Done (detectElementInspection s)"
| "run_task GlobalSymbolTick env s = globalSymbolScan suspiciousVars env s"
| "run_task SpamTick env s = spamTick env s"
| "run_task RecheckTimeout env s = recheckTimeout env s"
| "run_task RedirectTimeout env s = Done s"
| "run_task (ObserverCleanup r) env s = Done (observerCleanup r s)"
| "run_task (WarningHide w a) env s = Done (warningHide w a s)"
| "run_task (WarningRemove w) env s = Done (removeNode w s)"

text \<open>A timer fires: a timeout is dropped from the list before its callback runs.\<close>

definition dropTimeout :: "timer \<Rightarrow> state \<Rightarrow> state" where
  "dropTimeout t s =
     (if repeating t then s else s\<lparr>timers := filter (\<lambda>u. tid u \<noteq> tid t) (timers s)\<rparr>)"

definition fire :: "env \<Rightarrow> nat \<Rightarrow> state \<Rightarrow> state outcome" where
  "fire env n s =
     (case find (\<lambda>t. tid t = n) (timers s) of
        None \<Rightarrow> Done s
      | Some t \<Rightarrow> run_task (callback t) env (dropTimeout t s))"

datatype step = Fire nat | Dispatch event | AttrMutation nat

fun step_fn :: "env \<Rightarrow> step \<Rightarrow> state \<Rightarrow> state outcome" where
  "step_fn env (Fire n) s = fire env n s"
| "step_fn env (Dispatch e) s =
     (case dispatch env e s of Done (e', s') \<Rightarrow> Done s' | Thrown (e', s') \<Rightarrow> Thrown s')"
| "step_fn env (AttrMutation r) s = mutationCallback env r s"

text \<open>
  The page before the script runs: its own nodes, no inline style on the body, no timer
  and no listener of this script. Timer ids start at 1, as the browser's do.
\<close>

definition page :: "node list \<Rightarrow> node list \<Rightarrow> state" where
  "page hnodes bnodes =
     \<lparr>isDevToolsOpen = False, protectionActive = False, warningShown = False,
      detectionMethods = [], consoleSpamInterval = Undefined,
      head_nodes = hnodes, body_nodes = bnodes, body_classes = [],
      body_filter = '''', body_opacity = '''', body_pointerEvents = '''',
      listeners = [], timers = [], observers = [],
      next_timer = 1, next_ref = Suc (fold max (map ref (hnodes @ bnodes)) 0),
      console_out = [], clipboard = '''', globalInstance = False, fetchWrapped = False\<rparr>"

definition clean_page :: "node list \<Rightarrow> node list \<Rightarrow> bool" where
  "clean_page hnodes bnodes =
     list_all (\<lambda>n. nid n \<noteq> overlay_id \<and> nid n \<noteq> active_style_id) (hnodes @ bnodes)"

text \<open>
  The states the script can be in: after it has loaded on a clean page, and after any
  timer, event or observed mutation, each in an environment that \<open>P\<close> admits.
\<close>

inductive reachable :: "(env \<Rightarrow> bool) \<Rightarrow> state \<Rightarrow> bool" for P :: "env \<Rightarrow> bool" where
  loaded: "clean_page hnodes bnodes \<Longrightarrow> P env \<Longrightarrow> reachable P (after (loadScript env (page hnodes bnodes)))"
| stepped: "reachable P s \<Longrightarrow> P env \<Longrightarrow> reachable P (after (step_fn env st s))"

definition any_env :: "env \<Rightarrow> bool" where
  "any_env env = True"


definition count_id :: "string \<Rightarrow> state \<Rightarrow> nat" where
  "count_id i s = length (filter (\<lambda>n. nid n = i) (document_nodes s))"

definition spam_timers :: "state \<Rightarrow> timer list" where
  "spam_timers s = filter (\<lambda>t. callback t = SpamTick) (timers s)"

section \<open>Invariants and sample inputs\<close>

text \<open>The document holds at most one overlay and at most one active-protection style node,
  and no such style node while protection is inactive.\<close>

definition inv_dom :: "state \<Rightarrow> bool" where
  "inv_dom s =
     (count_id overlay_id s \<le> 1 \<and> count_id active_style_id s \<le> 1
      \<and> (\<not> protectionActive s \<longrightarrow> count_id active_style_id s = 0))"

text \<open>Timer ids are positive, fresh and distinct; the spam timers are exactly the repeating
  timer that \<^verbatim>\<open>consoleSpamInterval\<close> names.\<close>

definition tm_ok :: "timer list \<Rightarrow> nat \<Rightarrow> handle \<Rightarrow> bool" where
  "tm_ok ts nt h =
     (1 \<le> nt
      \<and> (\<forall>t \<in> set ts. 1 \<le> tid t \<and> tid t < nt)
      \<and> distinct (map tid ts)
      \<and> (\<forall>t \<in> set ts. callback t = SpamTick \<longrightarrow> h = TimerId (tid t) \<and> repeating t)
      \<and> (\<forall>n. h = TimerId n \<longrightarrow> (\<exists>t \<in> set ts. tid t = n \<and> callback t = SpamTick)))"

definition inv_tm :: "state \<Rightarrow> bool" where
  "inv_tm s = tm_ok (timers s) (next_timer s) (consoleSpamInterval s)"






text \<open>The step is the firing of a timer whose callback is \<open>c\<close>.\<close>

definition fires :: "task \<Rightarrow> step \<Rightarrow> state \<Rightarrow> bool" where
  "fires c st s =
     (case st of
        Fire n \<Rightarrow> (case find (\<lambda>t. tid t = n) (timers s) of
                     Some t \<Rightarrow> callback t = c
                   | None \<Rightarrow> False)
      | Dispatch e \<Rightarrow> False
      | AttrMutation r \<Rightarrow> False)"

text \<open>Every pending timer with callback \<open>c\<close> satisfies \<open>Q\<close>.\<close>

definition timers_sat :: "task \<Rightarrow> (timer \<Rightarrow> bool) \<Rightarrow> state \<Rightarrow> bool" where
  "timers_sat c Q s = list_all (\<lambda>t. callback t \<noteq> c \<or> Q t) (timers s)"

text \<open>A browser window with no tools open, a working console and a loaded document.\<close>

definition env_quiet :: env where
  "env_quiet =
     \<lparr>outerHeight = 800, innerHeight = 720, outerWidth = 1200, innerWidth = 1200,
      consoleInspects = False, debuggerElapsed = 0, consoleThrows = False,
      clipboardThrows = False, callableGlobals = [], readyStateLoading = False\<rparr>"

text \<open>The same window with a docked panel: the height gap is 200.\<close>

definition env_docked :: env where
  "env_docked = env_quiet\<lparr>innerHeight := 600\<rparr>"

text \<open>The same window with all gaps 0.\<close>

definition env_closed :: env where
  "env_closed = env_quiet\<lparr>innerHeight := 800\<rparr>"

definition env_console_broken :: env where
  "env_console_broken = env_quiet\<lparr>consoleThrows := True\<rparr>"

definition env_clipboard_broken :: env where
  "env_clipboard_broken = env_quiet\<lparr>clipboardThrows := True\<rparr>"

text \<open>The state after the script has loaded on an empty page, and after a context click.\<close>

definition loaded_state :: state where
  "loaded_state = after (loadScript env_quiet (page [] []))"

definition sample_event :: "evtype \<Rightarrow> event" where
  "sample_event ty =
     \<lparr>etype = ty, key = '''', ctrlKey = False, shiftKey = False, altKey = False,
      metaKey = False, button = 0, targetRef = 0, targetTag = ''DIV'',
      clipboardData = Some [(''text/plain'', ''secret'')], cancelable = True,
      defaultPrevented = False, propagationStopped = False\<rparr>"

definition detected_state :: state where
  "detected_state = after (step_fn env_quiet (Dispatch (sample_event ContextMenu)) loaded_state)"

text \<open>The Detected state after the window-size probe (timer 1) has run with all gaps 0:
  a re-check is pending.\<close>

definition recheck_pending_state :: state where
  "recheck_pending_state = after (step_fn env_closed (Fire 1) detected_state)"

definition f12_event :: event where
  "f12_event = (sample_event Keydown)\<lparr>key := ''F12''\<rparr>"


definition printscreen_event :: event where
  "printscreen_event = (sample_event Keyup)\<lparr>key := ''PrintScreen''\<rparr>"


text \<open>A window in which all six console helpers are functions on the global object.\<close>

definition env_helpers :: env where
  "env_helpers = env_quiet\<lparr>callableGlobals := suspiciousVars\<rparr>"

section \<open>How each method changes the state\<close>

lemmas prim_defs = createElement_def appendBody_def appendHead_def removeNode_def
  classList_add_def classList_remove_def setInterval_def setTimeout_def addEventListener_def

lemma clearInterval_frame [simp]:
  "isDevToolsOpen (clearInterval h s) = isDevToolsOpen s"
  "protectionActive (clearInterval h s) = protectionActive s"
  "warningShown (clearInterval h s) = warningShown s"
  "consoleSpamInterval (clearInterval h s) = consoleSpamInterval s"
  "head_nodes (clearInterval h s) = head_nodes s"
  "body_nodes (clearInterval h s) = body_nodes s"
  "body_classes (clearInterval h s) = body_classes s"
  "body_filter (clearInterval h s) = body_filter s"
  "body_opacity (clearInterval h s) = body_opacity s"
  "body_pointerEvents (clearInterval h s) = body_pointerEvents s"
  "listeners (clearInterval h s) = listeners s"
  "observers (clearInterval h s) = observers s"
  "next_timer (clearInterval h s) = next_timer s"
  "next_ref (clearInterval h s) = next_ref s"
  "clipboard (clearInterval h s) = clipboard s"
  by (cases h; simp)+

lemma showProtectionOverlay_frame [simp]:
  "isDevToolsOpen (showProtectionOverlay s) = isDevToolsOpen s"
  "protectionActive (showProtectionOverlay s) = protectionActive s"
  "warningShown (showProtectionOverlay s) = warningShown s"
  "consoleSpamInterval (showProtectionOverlay s) = consoleSpamInterval s"
  "head_nodes (showProtectionOverlay s) = head_nodes s"
  "body_classes (showProtectionOverlay s) = body_classes s"
  "body_filter (showProtectionOverlay s) = body_filter s"
  "body_opacity (showProtectionOverlay s) = body_opacity s"
  "body_pointerEvents (showProtectionOverlay s) = body_pointerEvents s"
  "listeners (showProtectionOverlay s) = listeners s"
  "timers (showProtectionOverlay s) = timers s"
  "observers (showProtectionOverlay s) = observers s"
  "next_timer (showProtectionOverlay s) = next_timer s"
  "clipboard (showProtectionOverlay s) = clipboard s"
  by (simp_all add: showProtectionOverlay_def prim_defs split: option.splits)

lemma startConsoleSpam_frame [simp]:
  "isDevToolsOpen (startConsoleSpam s) = isDevToolsOpen s"
  "protectionActive (startConsoleSpam s) = protectionActive s"
  "warningShown (startConsoleSpam s) = warningShown s"
  "head_nodes (startConsoleSpam s) = head_nodes s"
  "body_nodes (startConsoleSpam s) = body_nodes s"
  "body_classes (startConsoleSpam s) = body_classes s"
  "body_filter (startConsoleSpam s) = body_filter s"
  "body_opacity (startConsoleSpam s) = body_opacity s"
  "body_pointerEvents (startConsoleSpam s) = body_pointerEvents s"
  "listeners (startConsoleSpam s) = listeners s"
  "observers (startConsoleSpam s) = observers s"
  "next_ref (startConsoleSpam s) = next_ref s"
  "clipboard (startConsoleSpam s) = clipboard s"
  by (simp_all add: startConsoleSpam_def prim_defs)

lemma applyVisualRestrictions_frame [simp]:
  "isDevToolsOpen (applyVisualRestrictions s) = isDevToolsOpen s"
  "protectionActive (applyVisualRestrictions s) = protectionActive s"
  "warningShown (applyVisualRestrictions s) = warningShown s"
  "consoleSpamInterval (applyVisualRestrictions s) = consoleSpamInterval s"
  "body_nodes (applyVisualRestrictions s) = body_nodes s"
  "body_classes (applyVisualRestrictions s) = body_classes s"
  "body_filter (applyVisualRestrictions s) = body_filter s"
  "body_opacity (applyVisualRestrictions s) = body_opacity s"
  "body_pointerEvents (applyVisualRestrictions s) = body_pointerEvents s"
  "listeners (applyVisualRestrictions s) = listeners s"
  "timers (applyVisualRestrictions s) = timers s"
  "observers (applyVisualRestrictions s) = observers s"
  "next_timer (applyVisualRestrictions s) = next_timer s"
  "clipboard (applyVisualRestrictions s) = clipboard s"
  by (simp_all add: applyVisualRestrictions_def prim_defs)

lemma stopConsoleSpam_frame [simp]:
  "isDevToolsOpen (stopConsoleSpam s) = isDevToolsOpen s"
  "protectionActive (stopConsoleSpam s) = protectionActive s"
  "warningShown (stopConsoleSpam s) = warningShown s"
  "head_nodes (stopConsoleSpam s) = head_nodes s"
  "body_nodes (stopConsoleSpam s) = body_nodes s"
  "body_classes (stopConsoleSpam s) = body_classes s"
  "body_filter (stopConsoleSpam s) = body_filter s"
  "body_opacity (stopConsoleSpam s) = body_opacity s"
  "body_pointerEvents (stopConsoleSpam s) = body_pointerEvents s"
  "listeners (stopConsoleSpam s) = listeners s"
  "observers (stopConsoleSpam s) = observers s"
  "next_timer (stopConsoleSpam s) = next_timer s"
  "next_ref (stopConsoleSpam s) = next_ref s"
  "clipboard (stopConsoleSpam s) = clipboard s"
  by (simp_all add: stopConsoleSpam_def prim_defs clearInterval_frame)

lemma removeById_frame [simp]:
  "isDevToolsOpen (removeById i s) = isDevToolsOpen s"
  "protectionActive (removeById i s) = protectionActive s"
  "warningShown (removeById i s) = warningShown s"
  "consoleSpamInterval (removeById i s) = consoleSpamInterval s"
  "body_classes (removeById i s) = body_classes s"
  "body_filter (removeById i s) = body_filter s"
  "body_opacity (removeById i s) = body_opacity s"
  "body_pointerEvents (removeById i s) = body_pointerEvents s"
  "listeners (removeById i s) = listeners s"
  "timers (removeById i s) = timers s"
  "observers (removeById i s) = observers s"
  "next_timer (removeById i s) = next_timer s"
  "next_ref (removeById i s) = next_ref s"
  "clipboard (removeById i s) = clipboard s"
  by (simp_all add: removeById_def prim_defs split: option.splits)

lemma classList_add_frame [simp]:
  "isDevToolsOpen (classList_add c s) = isDevToolsOpen s"
  "protectionActive (classList_add c s) = protectionActive s"
  "warningShown (classList_add c s) = warningShown s"
  "consoleSpamInterval (classList_add c s) = consoleSpamInterval s"
  "head_nodes (classList_add c s) = head_nodes s"
  "body_nodes (classList_add c s) = body_nodes s"
  "body_filter (classList_add c s) = body_filter s"
  "body_opacity (classList_add c s) = body_opacity s"
  "body_pointerEvents (classList_add c s) = body_pointerEvents s"
  "listeners (classList_add c s) = listeners s"
  "timers (classList_add c s) = timers s"
  "observers (classList_add c s) = observers s"
  "next_timer (classList_add c s) = next_timer s"
  "next_ref (classList_add c s) = next_ref s"
  "clipboard (classList_add c s) = clipboard s"
  by (simp_all add: classList_add_def)

lemma classList_remove_frame [simp]:
  "isDevToolsOpen (classList_remove c s) = isDevToolsOpen s"
  "protectionActive (classList_remove c s) = protectionActive s"
  "warningShown (classList_remove c s) = warningShown s"
  "consoleSpamInterval (classList_remove c s) = consoleSpamInterval s"
  "head_nodes (classList_remove c s) = head_nodes s"
  "body_nodes (classList_remove c s) = body_nodes s"
  "body_filter (classList_remove c s) = body_filter s"
  "body_opacity (classList_remove c s) = body_opacity s"
  "body_pointerEvents (classList_remove c s) = body_pointerEvents s"
  "listeners (classList_remove c s) = listeners s"
  "timers (classList_remove c s) = timers s"
  "observers (classList_remove c s) = observers s"
  "next_timer (classList_remove c s) = next_timer s"
  "next_ref (classList_remove c s) = next_ref s"
  "clipboard (classList_remove c s) = clipboard s"
  by (simp_all add: classList_remove_def)

lemma checkIfReallyClosed_frame [simp]:
  "isDevToolsOpen (checkIfReallyClosed s) = isDevToolsOpen s"
  "protectionActive (checkIfReallyClosed s) = protectionActive s"
  "warningShown (checkIfReallyClosed s) = warningShown s"
  "consoleSpamInterval (checkIfReallyClosed s) = consoleSpamInterval s"
  "head_nodes (checkIfReallyClosed s) = head_nodes s"
  "body_nodes (checkIfReallyClosed s) = body_nodes s"
  "body_classes (checkIfReallyClosed s) = body_classes s"
  "body_filter (checkIfReallyClosed s) = body_filter s"
  "body_opacity (checkIfReallyClosed s) = body_opacity s"
  "body_pointerEvents (checkIfReallyClosed s) = body_pointerEvents s"
  "listeners (checkIfReallyClosed s) = listeners s"
  "observers (checkIfReallyClosed s) = observers s"
  "next_ref (checkIfReallyClosed s) = next_ref s"
  "clipboard (checkIfReallyClosed s) = clipboard s"
  by (simp_all add: checkIfReallyClosed_def prim_defs)

lemma detectElementInspection_frame [simp]:
  "isDevToolsOpen (detectElementInspection s) = isDevToolsOpen s"
  "protectionActive (detectElementInspection s) = protectionActive s"
  "warningShown (detectElementInspection s) = warningShown s"
  "consoleSpamInterval (detectElementInspection s) = consoleSpamInterval s"
  "head_nodes (detectElementInspection s) = head_nodes s"
  "body_classes (detectElementInspection s) = body_classes s"
  "body_filter (detectElementInspection s) = body_filter s"
  "body_opacity (detectElementInspection s) = body_opacity s"
  "body_pointerEvents (detectElementInspection s) = body_pointerEvents s"
  "listeners (detectElementInspection s) = listeners s"
  "clipboard (detectElementInspection s) = clipboard s"
  by (simp_all add: detectElementInspection_def prim_defs)

lemma observerCleanup_frame [simp]:
  "isDevToolsOpen (observerCleanup r s) = isDevToolsOpen s"
  "protectionActive (observerCleanup r s) = protectionActive s"
  "warningShown (observerCleanup r s) = warningShown s"
  "consoleSpamInterval (observerCleanup r s) = consoleSpamInterval s"
  "body_classes (observerCleanup r s) = body_classes s"
  "body_filter (observerCleanup r s) = body_filter s"
  "body_opacity (observerCleanup r s) = body_opacity s"
  "body_pointerEvents (observerCleanup r s) = body_pointerEvents s"
  "listeners (observerCleanup r s) = listeners s"
  "timers (observerCleanup r s) = timers s"
  "next_timer (observerCleanup r s) = next_timer s"
  "next_ref (observerCleanup r s) = next_ref s"
  "clipboard (observerCleanup r s) = clipboard s"
  by (simp_all add: observerCleanup_def Let_def prim_defs)

lemma removeNode_frame [simp]:
  "isDevToolsOpen (removeNode r s) = isDevToolsOpen s"
  "protectionActive (removeNode r s) = protectionActive s"
  "warningShown (removeNode r s) = warningShown s"
  "consoleSpamInterval (removeNode r s) = consoleSpamInterval s"
  "body_classes (removeNode r s) = body_classes s"
  "body_filter (removeNode r s) = body_filter s"
  "body_opacity (removeNode r s) = body_opacity s"
  "body_pointerEvents (removeNode r s) = body_pointerEvents s"
  "listeners (removeNode r s) = listeners s"
  "timers (removeNode r s) = timers s"
  "observers (removeNode r s) = observers s"
  "next_timer (removeNode r s) = next_timer s"
  "next_ref (removeNode r s) = next_ref s"
  "clipboard (removeNode r s) = clipboard s"
  by (simp_all add: removeNode_def)

lemma showWarning_frame [simp]:
  "isDevToolsOpen (showWarning m s) = isDevToolsOpen s"
  "protectionActive (showWarning m s) = protectionActive s"
  "consoleSpamInterval (showWarning m s) = consoleSpamInterval s"
  "body_classes (showWarning m s) = body_classes s"
  "body_filter (showWarning m s) = body_filter s"
  "body_opacity (showWarning m s) = body_opacity s"
  "body_pointerEvents (showWarning m s) = body_pointerEvents s"
  "listeners (showWarning m s) = listeners s"
  "observers (showWarning m s) = observers s"
  "clipboard (showWarning m s) = clipboard s"
  by (simp_all add: showWarning_def prim_defs)

lemma warningHide_frame [simp]:
  "isDevToolsOpen (warningHide w a s) = isDevToolsOpen s"
  "protectionActive (warningHide w a s) = protectionActive s"
  "consoleSpamInterval (warningHide w a s) = consoleSpamInterval s"
  "body_classes (warningHide w a s) = body_classes s"
  "body_filter (warningHide w a s) = body_filter s"
  "body_opacity (warningHide w a s) = body_opacity s"
  "body_pointerEvents (warningHide w a s) = body_pointerEvents s"
  "listeners (warningHide w a s) = listeners s"
  "observers (warningHide w a s) = observers s"
  "next_ref (warningHide w a s) = next_ref s"
  "clipboard (warningHide w a s) = clipboard s"
  by (simp_all add: warningHide_def Let_def prim_defs)

lemma setupAdvancedProtection_frame [simp]:
  "isDevToolsOpen (setupAdvancedProtection s) = isDevToolsOpen s"
  "protectionActive (setupAdvancedProtection s) = protectionActive s"
  "warningShown (setupAdvancedProtection s) = warningShown s"
  "consoleSpamInterval (setupAdvancedProtection s) = consoleSpamInterval s"
  "body_nodes (setupAdvancedProtection s) = body_nodes s"
  "body_classes (setupAdvancedProtection s) = body_classes s"
  "body_filter (setupAdvancedProtection s) = body_filter s"
  "body_opacity (setupAdvancedProtection s) = body_opacity s"
  "body_pointerEvents (setupAdvancedProtection s) = body_pointerEvents s"
  "timers (setupAdvancedProtection s) = timers s"
  "observers (setupAdvancedProtection s) = observers s"
  "next_timer (setupAdvancedProtection s) = next_timer s"
  "clipboard (setupAdvancedProtection s) = clipboard s"
  by (simp_all add: setupAdvancedProtection_def setupAdvancedListeners_def prim_defs)

lemma disableAllDevToolsAccess_frame [simp]:
  "isDevToolsOpen (disableAllDevToolsAccess s) = isDevToolsOpen s"
  "protectionActive (disableAllDevToolsAccess s) = protectionActive s"
  "warningShown (disableAllDevToolsAccess s) = warningShown s"
  "consoleSpamInterval (disableAllDevToolsAccess s) = consoleSpamInterval s"
  "head_nodes (disableAllDevToolsAccess s) = head_nodes s"
  "body_nodes (disableAllDevToolsAccess s) = body_nodes s"
  "body_classes (disableAllDevToolsAccess s) = body_classes s"
  "body_filter (disableAllDevToolsAccess s) = body_filter s"
  "body_opacity (disableAllDevToolsAccess s) = body_opacity s"
  "body_pointerEvents (disableAllDevToolsAccess s) = body_pointerEvents s"
  "timers (disableAllDevToolsAccess s) = timers s"
  "observers (disableAllDevToolsAccess s) = observers s"
  "next_timer (disableAllDevToolsAccess s) = next_timer s"
  "next_ref (disableAllDevToolsAccess s) = next_ref s"
  "clipboard (disableAllDevToolsAccess s) = clipboard s"
  by (simp_all add: disableAllDevToolsAccess_def prim_defs)

lemma startContinuousDetection_frame [simp]:
  "isDevToolsOpen (startContinuousDetection s) = isDevToolsOpen s"
  "protectionActive (startContinuousDetection s) = protectionActive s"
  "warningShown (startContinuousDetection s) = warningShown s"
  "consoleSpamInterval (startContinuousDetection s) = consoleSpamInterval s"
  "head_nodes (startContinuousDetection s) = head_nodes s"
  "body_nodes (startContinuousDetection s) = body_nodes s"
  "body_classes (startContinuousDetection s) = body_classes s"
  "body_filter (startContinuousDetection s) = body_filter s"
  "body_opacity (startContinuousDetection s) = body_opacity s"
  "body_pointerEvents (startContinuousDetection s) = body_pointerEvents s"
  "listeners (startContinuousDetection s) = listeners s"
  "observers (startContinuousDetection s) = observers s"
  "next_ref (startContinuousDetection s) = next_ref s"
  "clipboard (startContinuousDetection s) = clipboard s"
  by (simp_all add: startContinuousDetection_def prim_defs)

lemma tryWriteText_frame [simp]:
  "isDevToolsOpen (tryWriteText env t s) = isDevToolsOpen s"
  "protectionActive (tryWriteText env t s) = protectionActive s"
  "warningShown (tryWriteText env t s) = warningShown s"
  "consoleSpamInterval (tryWriteText env t s) = consoleSpamInterval s"
  "head_nodes (tryWriteText env t s) = head_nodes s"
  "body_nodes (tryWriteText env t s) = body_nodes s"
  "body_classes (tryWriteText env t s) = body_classes s"
  "body_filter (tryWriteText env t s) = body_filter s"
  "body_opacity (tryWriteText env t s) = body_opacity s"
  "body_pointerEvents (tryWriteText env t s) = body_pointerEvents s"
  "listeners (tryWriteText env t s) = listeners s"
  "timers (tryWriteText env t s) = timers s"
  "observers (tryWriteText env t s) = observers s"
  "next_timer (tryWriteText env t s) = next_timer s"
  "next_ref (tryWriteText env t s) = next_ref s"
  by (simp_all add: tryWriteText_def writeText_def)
lemma after_andThen_eq: "after (andThen r f) = (if threw r then after r else after (f (after r)))"
  by (cases r) simp_all

lemma threw_andThen: "threw (andThen r f) = (threw r \<or> threw (f (after r)))"
  by (cases r) simp_all

lemma after_withEvent [simp]: "after (withEvent e r) = (e, after r)"
  by (cases r) simp_all

lemma threw_withEvent [simp]: "threw (withEvent e r) = threw r"
  by (cases r) simp_all

lemma console_call_after: "\<exists>c. after (console_call env l m s) = s\<lparr>console_out := c\<rparr>"
proof (cases "consoleThrows env")
  case True
  then have "after (console_call env l m s) = s\<lparr>console_out := console_out s\<rparr>"
    by (simp add: console_call_def)
  then show ?thesis by blast
next
  case False
  then show ?thesis by (auto simp: console_call_def)
qed

lemma spamLoop_throws: "consoleThrows env \<Longrightarrow> spamLoop n env s = (if n = 0 then Done s else Thrown s)"
  by (cases n) (simp_all add: console_call_def)

lemma spamLoop_after: "\<exists>c. after (spamLoop n env s) = s\<lparr>console_out := c\<rparr>"
proof (cases "consoleThrows env")
  case True
  then have "after (spamLoop n env s) = s\<lparr>console_out := console_out s\<rparr>"
    by (simp add: spamLoop_throws)
  then show ?thesis by blast
next
  case False
  then show ?thesis
  proof (induction n arbitrary: s)
    case 0
    have "after (spamLoop 0 env s) = s\<lparr>console_out := console_out s\<rparr>" by simp
    then show ?case by blast
  next
    case (Suc n)
    let ?s1 = "s\<lparr>console_out := console_out s @
                 [(Warn, ''Access Denied''), (Error, ''Unauthorized Access Attempt'')]\<rparr>"
    from Suc obtain c where "after (spamLoop n env ?s1) = ?s1\<lparr>console_out := c\<rparr>"
      by blast
    then have "after (spamLoop (Suc n) env s) = s\<lparr>console_out := c\<rparr>"
      using Suc.prems by (simp add: console_call_def)
    then show ?case by blast
  qed
qed

lemma spamBody_after: "\<exists>c. after (spamBody env s) = s\<lparr>console_out := c\<rparr>"
proof (cases "consoleThrows env")
  case True
  then have "after (spamBody env s) = s\<lparr>console_out := console_out s\<rparr>"
    by (simp add: spamBody_def console_clear_def)
  then show ?thesis by blast
next
  case False
  let ?s1 = "s\<lparr>console_out :=
                 [(Log, ''%c PROTECTED CONTENT''),
                  (Log, ''%cDeveloper tools detected and blocked.''),
                  (Log, ''%cClose developer tools to continue.''),
                  (Log, ''%c'' @ replicate 50 (CHR ''-''))]\<rparr>"
  obtain c where "after (spamLoop 20 env ?s1) = ?s1\<lparr>console_out := c\<rparr>"
    using spamLoop_after by blast
  then have "after (spamBody env s) = s\<lparr>console_out := c\<rparr>"
    using False by (simp add: spamBody_def console_clear_def console_call_def)
  then show ?thesis by blast
qed

lemma spamTick_Done: "spamTick env s = Done (after (spamTick env s))"
  by (simp add: spamTick_def split: outcome.splits)

lemma spamTick_after:
  "after (spamTick env s) =
     (if \<not> protectionActive s
      then (clearInterval (consoleSpamInterval s) s)\<lparr>consoleSpamInterval := Null\<rparr>
      else s\<lparr>console_out := console_out (after (spamTick env s))\<rparr>)"
proof (cases "protectionActive s")
  case False
  then show ?thesis by (simp add: spamTick_def)
next
  case True
  obtain c where c: "after (spamBody env s) = s\<lparr>console_out := c\<rparr>"
    using spamBody_after by blast
  have "after (spamTick env s) = after (spamBody env s)"
    using True by (simp add: spamTick_def split: outcome.splits)
  with c True show ?thesis by simp
qed

lemma console_call_frame [simp]:
  "isDevToolsOpen (after (console_call env l m s)) = isDevToolsOpen s"
  "protectionActive (after (console_call env l m s)) = protectionActive s"
  "warningShown (after (console_call env l m s)) = warningShown s"
  "consoleSpamInterval (after (console_call env l m s)) = consoleSpamInterval s"
  "head_nodes (after (console_call env l m s)) = head_nodes s"
  "body_nodes (after (console_call env l m s)) = body_nodes s"
  "body_classes (after (console_call env l m s)) = body_classes s"
  "body_filter (after (console_call env l m s)) = body_filter s"
  "body_opacity (after (console_call env l m s)) = body_opacity s"
  "body_pointerEvents (after (console_call env l m s)) = body_pointerEvents s"
  "listeners (after (console_call env l m s)) = listeners s"
  "timers (after (console_call env l m s)) = timers s"
  "observers (after (console_call env l m s)) = observers s"
  "next_timer (after (console_call env l m s)) = next_timer s"
  "next_ref (after (console_call env l m s)) = next_ref s"
  "clipboard (after (console_call env l m s)) = clipboard s"
  by (simp_all add: console_call_def)

lemma spamTick_frame [simp]:
  "isDevToolsOpen (after (spamTick env s)) = isDevToolsOpen s"
  "protectionActive (after (spamTick env s)) = protectionActive s"
  "warningShown (after (spamTick env s)) = warningShown s"
  "head_nodes (after (spamTick env s)) = head_nodes s"
  "body_nodes (after (spamTick env s)) = body_nodes s"
  "body_classes (after (spamTick env s)) = body_classes s"
  "body_filter (after (spamTick env s)) = body_filter s"
  "body_opacity (after (spamTick env s)) = body_opacity s"
  "body_pointerEvents (after (spamTick env s)) = body_pointerEvents s"
  "listeners (after (spamTick env s)) = listeners s"
  "observers (after (spamTick env s)) = observers s"
  "next_timer (after (spamTick env s)) = next_timer s"
  "next_ref (after (spamTick env s)) = next_ref s"
  "clipboard (after (spamTick env s)) = clipboard s"
  by (subst spamTick_after, simp)+

lemma activateProtection_frame [simp]:
  "isDevToolsOpen (after (activateProtection env s)) = isDevToolsOpen s"
  "warningShown (after (activateProtection env s)) = warningShown s"
  "body_nodes (after (activateProtection env s)) = body_nodes s"
  "body_filter (after (activateProtection env s)) = body_filter s"
  "body_opacity (after (activateProtection env s)) = body_opacity s"
  "body_pointerEvents (after (activateProtection env s)) = body_pointerEvents s"
  "listeners (after (activateProtection env s)) = listeners s"
  "observers (after (activateProtection env s)) = observers s"
  "clipboard (after (activateProtection env s)) = clipboard s"
  by (simp_all add: activateProtection_def prim_defs after_andThen_eq console_call_def)

lemma handleDevToolsDetected_frame [simp]:
  "warningShown (after (handleDevToolsDetected env s)) = warningShown s"
  "listeners (after (handleDevToolsDetected env s)) = listeners s"
  "observers (after (handleDevToolsDetected env s)) = observers s"
  "clipboard (after (handleDevToolsDetected env s)) = clipboard s"
  by (simp_all add: handleDevToolsDetected_def prim_defs after_andThen_eq console_call_def)

lemma deactivateProtection_frame [simp]:
  "warningShown (after (deactivateProtection env s)) = warningShown s"
  "listeners (after (deactivateProtection env s)) = listeners s"
  "observers (after (deactivateProtection env s)) = observers s"
  "next_timer (after (deactivateProtection env s)) = next_timer s"
  "next_ref (after (deactivateProtection env s)) = next_ref s"
  "clipboard (after (deactivateProtection env s)) = clipboard s"
  by (simp_all add: deactivateProtection_def)

lemma recheckTimeout_frame [simp]:
  "warningShown (after (recheckTimeout env s)) = warningShown s"
  "listeners (after (recheckTimeout env s)) = listeners s"
  "observers (after (recheckTimeout env s)) = observers s"
  "next_timer (after (recheckTimeout env s)) = next_timer s"
  "next_ref (after (recheckTimeout env s)) = next_ref s"
  "clipboard (after (recheckTimeout env s)) = clipboard s"
  by (simp_all add: recheckTimeout_def)

lemma detectByWindowSize_frame [simp]:
  "warningShown (after (detectByWindowSize env s)) = warningShown s"
  "listeners (after (detectByWindowSize env s)) = listeners s"
  "observers (after (detectByWindowSize env s)) = observers s"
  "clipboard (after (detectByWindowSize env s)) = clipboard s"
  by (simp_all add: detectByWindowSize_def)

lemma detectByConsole_frame [simp]:
  "warningShown (after (detectByConsole env s)) = warningShown s"
  "listeners (after (detectByConsole env s)) = listeners s"
  "observers (after (detectByConsole env s)) = observers s"
  "clipboard (after (detectByConsole env s)) = clipboard s"
  by (simp_all add: detectByConsole_def after_andThen_eq)

lemma detectByTiming_frame [simp]:
  "warningShown (after (detectByTiming env s)) = warningShown s"
  "listeners (after (detectByTiming env s)) = listeners s"
  "observers (after (detectByTiming env s)) = observers s"
  "clipboard (after (detectByTiming env s)) = clipboard s"
  by (simp_all add: detectByTiming_def)

lemma mutationCallback_frame [simp]:
  "warningShown (after (mutationCallback env r s)) = warningShown s"
  "listeners (after (mutationCallback env r s)) = listeners s"
  "observers (after (mutationCallback env r s)) = observers s"
  "clipboard (after (mutationCallback env r s)) = clipboard s"
  by (simp_all add: mutationCallback_def)

lemma detectExistingDevTools_frame [simp]:
  "warningShown (after (detectExistingDevTools env s)) = warningShown s"
  "listeners (after (detectExistingDevTools env s)) = listeners s"
  "observers (after (detectExistingDevTools env s)) = observers s"
  "clipboard (after (detectExistingDevTools env s)) = clipboard s"
  by (simp_all add: detectExistingDevTools_def after_andThen_eq)

lemma dropTimeout_frame [simp]:
  "isDevToolsOpen (dropTimeout t s) = isDevToolsOpen s"
  "protectionActive (dropTimeout t s) = protectionActive s"
  "warningShown (dropTimeout t s) = warningShown s"
  "consoleSpamInterval (dropTimeout t s) = consoleSpamInterval s"
  "head_nodes (dropTimeout t s) = head_nodes s"
  "body_nodes (dropTimeout t s) = body_nodes s"
  "body_classes (dropTimeout t s) = body_classes s"
  "body_filter (dropTimeout t s) = body_filter s"
  "body_opacity (dropTimeout t s) = body_opacity s"
  "body_pointerEvents (dropTimeout t s) = body_pointerEvents s"
  "listeners (dropTimeout t s) = listeners s"
  "observers (dropTimeout t s) = observers s"
  "next_timer (dropTimeout t s) = next_timer s"
  "next_ref (dropTimeout t s) = next_ref s"
  "clipboard (dropTimeout t s) = clipboard s"
  by (simp_all add: dropTimeout_def)

lemma addEventListener_frame [simp]:
  "isDevToolsOpen (addEventListener h s) = isDevToolsOpen s"
  "protectionActive (addEventListener h s) = protectionActive s"
  "warningShown (addEventListener h s) = warningShown s"
  "consoleSpamInterval (addEventListener h s) = consoleSpamInterval s"
  "head_nodes (addEventListener h s) = head_nodes s"
  "body_nodes (addEventListener h s) = body_nodes s"
  "body_classes (addEventListener h s) = body_classes s"
  "body_filter (addEventListener h s) = body_filter s"
  "body_opacity (addEventListener h s) = body_opacity s"
  "body_pointerEvents (addEventListener h s) = body_pointerEvents s"
  "timers (addEventListener h s) = timers s"
  "observers (addEventListener h s) = observers s"
  "next_timer (addEventListener h s) = next_timer s"
  "next_ref (addEventListener h s) = next_ref s"
  "clipboard (addEventListener h s) = clipboard s"
  by (simp_all add: addEventListener_def)

lemma setTimeout_frame [simp]:
  "isDevToolsOpen (snd (setTimeout c ms s)) = isDevToolsOpen s"
  "protectionActive (snd (setTimeout c ms s)) = protectionActive s"
  "warningShown (snd (setTimeout c ms s)) = warningShown s"
  "consoleSpamInterval (snd (setTimeout c ms s)) = consoleSpamInterval s"
  "head_nodes (snd (setTimeout c ms s)) = head_nodes s"
  "body_nodes (snd (setTimeout c ms s)) = body_nodes s"
  "body_classes (snd (setTimeout c ms s)) = body_classes s"
  "body_filter (snd (setTimeout c ms s)) = body_filter s"
  "body_opacity (snd (setTimeout c ms s)) = body_opacity s"
  "body_pointerEvents (snd (setTimeout c ms s)) = body_pointerEvents s"
  "listeners (snd (setTimeout c ms s)) = listeners s"
  "observers (snd (setTimeout c ms s)) = observers s"
  "next_ref (snd (setTimeout c ms s)) = next_ref s"
  "clipboard (snd (setTimeout c ms s)) = clipboard s"
  by (simp_all add: setTimeout_def)

lemma setInterval_frame [simp]:
  "isDevToolsOpen (snd (setInterval c ms s)) = isDevToolsOpen s"
  "protectionActive (snd (setInterval c ms s)) = protectionActive s"
  "warningShown (snd (setInterval c ms s)) = warningShown s"
  "consoleSpamInterval (snd (setInterval c ms s)) = consoleSpamInterval s"
  "head_nodes (snd (setInterval c ms s)) = head_nodes s"
  "body_nodes (snd (setInterval c ms s)) = body_nodes s"
  "body_classes (snd (setInterval c ms s)) = body_classes s"
  "body_filter (snd (setInterval c ms s)) = body_filter s"
  "body_opacity (snd (setInterval c ms s)) = body_opacity s"
  "body_pointerEvents (snd (setInterval c ms s)) = body_pointerEvents s"
  "listeners (snd (setInterval c ms s)) = listeners s"
  "observers (snd (setInterval c ms s)) = observers s"
  "next_ref (snd (setInterval c ms s)) = next_ref s"
  "clipboard (snd (setInterval c ms s)) = clipboard s"
  by (simp_all add: setInterval_def)

section \<open>Counting nodes by identifier\<close>

lemma overlay_id_neq [simp]:
  "overlay_id \<noteq> ''''" "overlay_id \<noteq> active_style_id" "overlay_id \<noteq> ''comprehensive-protection''"
  "active_style_id \<noteq> ''''" "active_style_id \<noteq> overlay_id"
  "active_style_id \<noteq> ''comprehensive-protection''"
  by (simp_all add: overlay_id_def active_style_id_def)

lemma find_None_count: "(find P xs = None) = (length (filter P xs) = 0)"
  by (induction xs) simp_all

lemma getElementById_count: "(getElementById i s = None) = (count_id i s = 0)"
  by (simp add: getElementById_def count_id_def find_None_count)

lemma count_id_showProtectionOverlay:
  "count_id i (showProtectionOverlay s) =
     (if i = overlay_id \<and> count_id overlay_id s = 0 then 1 else count_id i s)"
proof (cases "getElementById overlay_id s")
  case None
  then have "count_id overlay_id s = 0" by (simp add: getElementById_count)
  with None show ?thesis
    by (simp add: showProtectionOverlay_def count_id_def document_nodes_def prim_defs)
next
  case (Some n)
  then have "count_id overlay_id s \<noteq> 0" using getElementById_count [of overlay_id s] by simp
  with Some show ?thesis by (simp add: showProtectionOverlay_def)
qed

lemma count_id_applyVisualRestrictions:
  "count_id i (applyVisualRestrictions s) = count_id i s + (if i = active_style_id then 1 else 0)"
  by (simp add: applyVisualRestrictions_def count_id_def document_nodes_def prim_defs)

lemma count_id_startConsoleSpam [simp]: "count_id i (startConsoleSpam s) = count_id i s"
  by (simp add: count_id_def document_nodes_def)

lemma count_id_stopConsoleSpam [simp]: "count_id i (stopConsoleSpam s) = count_id i s"
  by (simp add: count_id_def document_nodes_def)

lemma count_id_classList [simp]:
  "count_id i (classList_add c s) = count_id i s"
  "count_id i (classList_remove c s) = count_id i s"
  by (simp_all add: count_id_def document_nodes_def)

lemma count_id_removeNode: "count_id i (removeNode r s) \<le> count_id i s"
proof -
  have le: "length (filter (\<lambda>n. ref n \<noteq> r \<and> nid n = i) xs)
          \<le> length (filter (\<lambda>n. nid n = i) xs)" for xs :: "node list"
    by (induction xs) auto
  show ?thesis
    using le [of "head_nodes s"] le [of "body_nodes s"]
    by (simp add: count_id_def document_nodes_def removeNode_def)
qed

lemma filter_single_removed:
  "length (filter P xs) \<le> 1 \<Longrightarrow> find P xs = Some n \<Longrightarrow>
   filter P (filter (\<lambda>m. f m \<noteq> f n) xs) = []"
proof (induction xs)
  case Nil
  then show ?case by simp
next
  case (Cons x xs)
  show ?case
  proof (cases "P x")
    case True
    with Cons.prems have "filter P xs = []" and "x = n" by simp_all
    then show ?thesis by (simp add: filter_empty_conv)
  next
    case False
    with Cons show ?thesis by simp
  qed
qed

lemma count_id_removeById_le: "count_id i (removeById j s) \<le> count_id i s"
  by (cases "getElementById j s") (simp_all add: removeById_def count_id_removeNode)

lemma count_id_removeById_same:
  assumes "count_id j s \<le> 1"
  shows "count_id j (removeById j s) = 0"
proof (cases "getElementById j s")
  case None
  then have "removeById j s = s" by (simp add: removeById_def)
  moreover from None have "count_id j s = 0" by (simp add: getElementById_count)
  ultimately show ?thesis by simp
next
  case (Some n)
  have "filter (\<lambda>m. nid m = j) (filter (\<lambda>m. ref m \<noteq> ref n) (document_nodes s)) = []"
    using assms Some
    by (intro filter_single_removed) (simp_all add: count_id_def getElementById_def)
  then have "length (filter (\<lambda>m. nid m = j) (document_nodes (removeNode (ref n) s))) = 0"
    by (simp add: document_nodes_def removeNode_def)
  then show ?thesis
    using Some by (simp add: removeById_def count_id_def)
qed

section \<open>The detection entry point\<close>

lemma handleDevToolsDetected_noop: "isDevToolsOpen s \<Longrightarrow> handleDevToolsDetected env s = Done s"
  by (simp add: handleDevToolsDetected_def)

lemma handleDevToolsDetected_open [simp]: "isDevToolsOpen (after (handleDevToolsDetected env s))"
  by (simp add: handleDevToolsDetected_def after_andThen_eq console_call_def prim_defs)

lemma activateProtection_threw:
  "threw (activateProtection env s) = (consoleThrows env \<and> \<not> protectionActive s)"
  by (simp add: activateProtection_def threw_andThen console_call_def)


lemma handleDevToolsDetected_threw:
  "threw (handleDevToolsDetected env s) = (consoleThrows env \<and> \<not> isDevToolsOpen s)"
  by (simp add: handleDevToolsDetected_def threw_andThen console_call_def activateProtection_threw)




section \<open>At most one overlay and one active-protection style\<close>

lemma count_id_cong:
  "head_nodes s' = head_nodes s \<Longrightarrow> body_nodes s' = body_nodes s \<Longrightarrow> count_id i s' = count_id i s"
  by (simp add: count_id_def document_nodes_def)

lemma inv_dom_cong:
  "head_nodes s' = head_nodes s \<Longrightarrow> body_nodes s' = body_nodes s \<Longrightarrow>
   protectionActive s' = protectionActive s \<Longrightarrow> inv_dom s' = inv_dom s"
  by (simp add: inv_dom_def count_id_cong [of s' s])

lemma count_id_showWarning: "i \<noteq> '''' \<Longrightarrow> count_id i (showWarning m s) = count_id i s"
  by (simp add: showWarning_def count_id_def document_nodes_def prim_defs)

lemma count_id_setupAdvancedProtection:
  "i \<noteq> ''comprehensive-protection'' \<Longrightarrow> count_id i (setupAdvancedProtection s) = count_id i s"
  by (simp add: setupAdvancedProtection_def setupAdvancedListeners_def count_id_def
      document_nodes_def prim_defs)

lemma count_id_detectElementInspection:
  "i \<noteq> '''' \<Longrightarrow> count_id i (detectElementInspection s) = count_id i s"
  by (simp add: detectElementInspection_def count_id_def document_nodes_def prim_defs)

lemma count_id_observerCleanup: "count_id i (observerCleanup r s) \<le> count_id i s"
proof -
  let ?s' = "s\<lparr>observers := removeAll r (observers s)\<rparr>"
  have "count_id i ?s' = count_id i s" by (rule count_id_cong) simp_all
  moreover have "count_id i (removeNode r ?s') \<le> count_id i ?s'" by (rule count_id_removeNode)
  ultimately show ?thesis by (simp add: observerCleanup_def Let_def)
qed

lemma count_id_warningHide: "count_id i (warningHide w a s) \<le> count_id i s"
proof -
  let ?s1 = "if hasParent w s then snd (setTimeout (WarningRemove w) 400 s) else s"
  let ?s2 = "?s1\<lparr>warningShown := False\<rparr>"
  have "count_id i ?s2 = count_id i s"
    by (rule count_id_cong) (simp_all add: setTimeout_def)
  moreover have "count_id i (removeNode a ?s2) \<le> count_id i ?s2" by (rule count_id_removeNode)
  ultimately show ?thesis by (simp add: warningHide_def Let_def)
qed

lemma inv_dom_shrink:
  assumes "inv_dom s" and "\<And>i. count_id i s' \<le> count_id i s"
    and "protectionActive s' = protectionActive s"
  shows "inv_dom s'"
proof -
  have "count_id overlay_id s' \<le> count_id overlay_id s"
    and "count_id active_style_id s' \<le> count_id active_style_id s"
    using assms(2) by blast+
  with assms(1,3) show ?thesis by (auto simp: inv_dom_def)
qed

lemma inv_dom_showProtectionOverlay: "inv_dom s \<Longrightarrow> inv_dom (showProtectionOverlay s)"
  by (simp add: inv_dom_def count_id_showProtectionOverlay)

lemma inv_dom_activateProtection:
  assumes "inv_dom s"
  shows "inv_dom (after (activateProtection env s))"
proof (cases "protectionActive s")
  case True
  then show ?thesis using assms by (simp add: activateProtection_def)
next
  case False
  let ?s1 = "s\<lparr>protectionActive := True\<rparr>"
  have c1: "count_id i ?s1 = count_id i s" for i by (rule count_id_cong) simp_all
  show ?thesis
  proof (cases "consoleThrows env")
    case True
    with False have "after (activateProtection env s) = ?s1"
      by (simp add: activateProtection_def console_call_def)
    with assms c1 show ?thesis by (simp add: inv_dom_def)
  next
    case nothrow: False
    let ?s2 = "?s1\<lparr>console_out := console_out ?s1 @ [(Log, ''Full protection activated'')]\<rparr>"
    have c2: "count_id i ?s2 = count_id i s" for i by (rule count_id_cong) simp_all
    have "after (activateProtection env s)
            = applyVisualRestrictions (startConsoleSpam (classList_add ''protection-active'' ?s2))"
      using False nothrow by (simp add: activateProtection_def console_call_def)
    with assms False c2 show ?thesis
      by (simp add: inv_dom_def count_id_applyVisualRestrictions)
  qed
qed

lemma inv_dom_handleDevToolsDetected:
  assumes "inv_dom s"
  shows "inv_dom (after (handleDevToolsDetected env s))"
proof (cases "isDevToolsOpen s")
  case True
  then show ?thesis using assms by (simp add: handleDevToolsDetected_noop)
next
  case False
  let ?s0 = "s\<lparr>isDevToolsOpen := True\<rparr>"
  have "inv_dom ?s0 = inv_dom s" by (rule inv_dom_cong) simp_all
  with assms have i0: "inv_dom ?s0" by simp
  show ?thesis
  proof (cases "consoleThrows env")
    case True
    with False have "after (handleDevToolsDetected env s) = ?s0"
      by (simp add: handleDevToolsDetected_def console_call_def)
    with i0 show ?thesis by simp
  next
    case nothrow: False
    let ?s1 = "s\<lparr>isDevToolsOpen := True,
                 console_out := console_out s @ [(Log, ''Developer tools detected!'')]\<rparr>"
    let ?s2 = "after (activateProtection env ?s1)"
    let ?s3 = "showProtectionOverlay ?s2"
    let ?s4 = "snd (setTimeout RedirectTimeout 5000
                 (?s3\<lparr>body_filter := ''blur(8px)'', body_opacity := ''0.3'',
                       body_pointerEvents := ''none''\<rparr>))"
    have "inv_dom ?s1 = inv_dom s" by (rule inv_dom_cong) simp_all
    with assms have "inv_dom ?s1" by simp
    then have "inv_dom ?s3"
      by (intro inv_dom_showProtectionOverlay inv_dom_activateProtection)
    moreover have "inv_dom ?s4 = inv_dom ?s3"
      by (rule inv_dom_cong) (simp_all add: setTimeout_def)
    moreover have "after (handleDevToolsDetected env s) = ?s4"
      using False nothrow
      by (simp add: handleDevToolsDetected_def after_andThen_eq console_call_def
          activateProtection_threw)
    ultimately show ?thesis by simp
  qed
qed

lemma deactivateProtection_after:
  "\<exists>c. after (deactivateProtection env s) =
     (stopConsoleSpam
        (removeById overlay_id
          (removeById active_style_id
            (classList_remove ''protection-active''
              (s\<lparr>protectionActive := False, isDevToolsOpen := False\<rparr>)))))
      \<lparr>body_filter := '''', body_pointerEvents := '''', body_opacity := '''', console_out := c\<rparr>"
  unfolding deactivateProtection_def
  using console_call_after by blast

lemma deactivateProtection_counts:
  assumes "inv_dom s"
  shows "count_id overlay_id (after (deactivateProtection env s)) = 0"
    and "count_id active_style_id (after (deactivateProtection env s)) = 0"
proof -
  let ?s1 = "classList_remove ''protection-active''
               (s\<lparr>protectionActive := False, isDevToolsOpen := False\<rparr>)"
  let ?s2 = "removeById active_style_id ?s1"
  let ?s3 = "removeById overlay_id ?s2"
  obtain c where res: "after (deactivateProtection env s) =
      (stopConsoleSpam ?s3)\<lparr>body_filter := '''', body_pointerEvents := '''',
         body_opacity := '''', console_out := c\<rparr>"
    using deactivateProtection_after by blast
  have c1: "count_id i ?s1 = count_id i s" for i by (rule count_id_cong) simp_all
  have a2: "count_id active_style_id ?s2 = 0"
    using assms c1 by (intro count_id_removeById_same) (simp add: inv_dom_def)
  have "count_id overlay_id ?s2 \<le> count_id overlay_id ?s1" by (rule count_id_removeById_le)
  with assms c1 have "count_id overlay_id ?s2 \<le> 1" by (simp add: inv_dom_def)
  then have o3: "count_id overlay_id ?s3 = 0" by (rule count_id_removeById_same)
  have "count_id active_style_id ?s3 \<le> count_id active_style_id ?s2"
    by (rule count_id_removeById_le)
  with a2 have a3: "count_id active_style_id ?s3 = 0" by simp
  have fin: "count_id i (after (deactivateProtection env s)) = count_id i ?s3" for i
    unfolding res by (rule count_id_cong) simp_all
  show "count_id overlay_id (after (deactivateProtection env s)) = 0"
    using o3 fin by simp
  show "count_id active_style_id (after (deactivateProtection env s)) = 0"
    using a3 fin by simp
qed

lemma inv_dom_deactivateProtection:
  "inv_dom s \<Longrightarrow> inv_dom (after (deactivateProtection env s))"
  by (simp add: inv_dom_def [of "after (deactivateProtection env s)"] deactivateProtection_counts)

section \<open>Properties kept by every probe and every listener\<close>

text \<open>
  The probes and listeners are built from few operations. A property of states that each
  of these operations keeps is kept by every probe, by every listener and by the dispatch
  of any event. The environment is fixed, so that a property may depend on it.
\<close>

lemma console_call_keeps:
  assumes "\<And>s c. I s \<Longrightarrow> I (s\<lparr>console_out := c\<rparr>)" and "I s"
  shows "I (after (console_call env l m s))"
proof -
  obtain c where "after (console_call env l m s) = s\<lparr>console_out := c\<rparr>"
    using console_call_after by blast
  with assms show ?thesis by simp
qed

lemma globalSymbolScan_keeps:
  assumes "\<And>s. I s \<Longrightarrow> I (after (handleDevToolsDetected env s))" and "I s"
  shows "I (after (globalSymbolScan vs env s))"
  using assms(2)
proof (induction vs arbitrary: s)
  case Nil
  then show ?case by simp
next
  case (Cons v vs)
  then show ?case by (simp add: after_andThen_eq assms(1))
qed

lemma detectByWindowSize_keeps:
  assumes hd: "\<And>s. I s \<Longrightarrow> I (after (handleDevToolsDetected env s))"
    and ck: "\<And>s. I s \<Longrightarrow> I (checkIfReallyClosed s)"
    and s: "I s"
  shows "I (after (detectByWindowSize env s))"
  using s by (simp add: detectByWindowSize_def hd ck)

lemma probes_keep:
  assumes hd: "\<And>s. I s \<Longrightarrow> I (after (handleDevToolsDetected env s))"
    and co: "\<And>s c. I s \<Longrightarrow> I (s\<lparr>console_out := c\<rparr>)"
    and s: "I s"
  shows "I (after (detectByConsole env s))"
    and "I (after (detectByTiming env s))"
    and "I (after (mutationCallback env r s))"
    and "I (after (detectExistingDevTools env s))"
proof -
  note cc = console_call_keeps [of I, OF co]
  show "I (after (detectByConsole env s))"
    using s by (simp add: detectByConsole_def after_andThen_eq hd cc)
  show "I (after (detectByTiming env s))"
    using s by (simp add: detectByTiming_def hd)
  show "I (after (mutationCallback env r s))"
    using s by (simp add: mutationCallback_def hd)
  show "I (after (detectExistingDevTools env s))"
    using s by (simp add: detectExistingDevTools_def after_andThen_eq hd cc)
qed

lemma recheckTimeout_keeps:
  assumes "\<And>s. I s \<Longrightarrow> I (after (deactivateProtection env s))" and "I s"
  shows "I (after (recheckTimeout env s))"
  using assms by (simp add: recheckTimeout_def)

lemma run_handler_keeps:
  assumes hd: "\<And>s. I s \<Longrightarrow> I (after (handleDevToolsDetected env s))"
    and sw: "\<And>s m. I s \<Longrightarrow> I (showWarning m s)"
    and wt: "\<And>s c. I s \<Longrightarrow> I (s\<lparr>clipboard := c\<rparr>)"
    and su: "\<And>s. I s \<Longrightarrow> I (setupAdvancedProtection s)"
    and s: "I s"
  shows "I (snd (after (run_handler h env e s)))"
proof (cases h)
  case KeyupHandler
  have "I (tryWriteText env t s')" if "I s'" for t s'
    using that wt [of s' t] by (simp add: tryWriteText_def writeText_def)
  then show ?thesis
    using s KeyupHandler by (simp add: keyupListener_def after_andThen_eq hd)
next
  case CopyHandler
  then show ?thesis using s by (simp add: copyListener_def split: option.splits)
qed (use s in \<open>simp_all add: keydownListener_def contextmenuListener_def middleClickListener_def
      ctrlClickListener_def selectstartListener_def messageListener_def dragstartListener_def
      beforeprintListener_def hd sw su\<close>)

lemma run_listeners_after:
  "after (run_listeners (h # hs) env e s) =
     after (run_listeners hs env (fst (after (run_handler h env e s)))
              (snd (after (run_handler h env e s))))"
  by (cases "run_handler h env e s") (auto split: prod.splits)

lemma run_listeners_keeps:
  assumes hd: "\<And>s. I s \<Longrightarrow> I (after (handleDevToolsDetected env s))"
    and sw: "\<And>s m. I s \<Longrightarrow> I (showWarning m s)"
    and wt: "\<And>s c. I s \<Longrightarrow> I (s\<lparr>clipboard := c\<rparr>)"
    and su: "\<And>s. I s \<Longrightarrow> I (setupAdvancedProtection s)"
    and s: "I s"
  shows "I (snd (after (run_listeners hs env e s)))"
  using s
proof (induction hs arbitrary: e s)
  case Nil
  then show ?case by simp
next
  case (Cons h hs)
  have "I (snd (after (run_handler h env e s)))"
    using hd sw wt su Cons.prems by (rule run_handler_keeps [where I = I])
  then show ?case
    unfolding run_listeners_after by (rule Cons.IH)
qed

lemma dispatch_keeps:
  assumes hd: "\<And>s. I s \<Longrightarrow> I (after (handleDevToolsDetected env s))"
    and sw: "\<And>s m. I s \<Longrightarrow> I (showWarning m s)"
    and wt: "\<And>s c. I s \<Longrightarrow> I (s\<lparr>clipboard := c\<rparr>)"
    and su: "\<And>s. I s \<Longrightarrow> I (setupAdvancedProtection s)"
    and s: "I s"
  shows "I (after (step_fn env (Dispatch e) s))"
proof -
  have "after (step_fn env (Dispatch e) s) = snd (after (dispatch env e s))"
    by (cases "dispatch env e s") (auto split: prod.splits)
  moreover have "I (snd (after (dispatch env e s)))"
  proof (cases "etype e = Click")
    case True
    then show ?thesis using s by (simp add: dispatch_def)
  next
    case False
    then show ?thesis
      using run_listeners_keeps [of I, OF hd sw wt su s] by (simp add: dispatch_def)
  qed
  ultimately show ?thesis by simp
qed

lemma fire_keeps:
  assumes found: "find (\<lambda>t. tid t = n) (timers s) = Some t"
    and pre: "I (dropTimeout t s)"
    and hd: "\<And>s. I s \<Longrightarrow> I (after (handleDevToolsDetected env s))"
    and de: "\<And>s. callback t = RecheckTimeout \<Longrightarrow> I s \<Longrightarrow> I (after (deactivateProtection env s))"
    and co: "\<And>s c. I s \<Longrightarrow> I (s\<lparr>console_out := c\<rparr>)"
    and ck: "\<And>s. callback t = WindowSizeTick \<Longrightarrow> I s \<Longrightarrow> I (checkIfReallyClosed s)"
    and di: "\<And>s. I s \<Longrightarrow> I (detectElementInspection s)"
    and sp: "\<And>s. I s \<Longrightarrow> I (after (spamTick env s))"
    and oc: "\<And>r. callback t = ObserverCleanup r \<Longrightarrow> I (observerCleanup r (dropTimeout t s))"
    and wh: "\<And>w a. callback t = WarningHide w a \<Longrightarrow> I (warningHide w a (dropTimeout t s))"
    and wr: "\<And>w. callback t = WarningRemove w \<Longrightarrow> I (removeNode w (dropTimeout t s))"
  shows "I (after (fire env n s))"
proof -
  let ?s0 = "dropTimeout t s"
  have run: "fire env n s = run_task (callback t) env ?s0"
    using found by (simp add: fire_def)
  show ?thesis
  proof (cases "callback t")
    case WindowSizeTick
    then show ?thesis
      using detectByWindowSize_keeps [of I env ?s0] hd ck pre by (simp add: run)
  next
    case ConsoleTick
    then show ?thesis using probes_keep(1) [of I env ?s0] hd co pre by (simp add: run)
  next
    case TimingTick
    then show ?thesis using probes_keep(2) [of I env ?s0] hd co pre by (simp add: run)
  next
    case InspectionTick
    then show ?thesis using di pre by (simp add: run)
  next
    case GlobalSymbolTick
    then show ?thesis
      using globalSymbolScan_keeps [of I env ?s0] hd pre by (simp add: run)
  next
    case SpamTick
    then show ?thesis using sp pre by (simp add: run)
  next
    case RecheckTimeout
    then show ?thesis
      using recheckTimeout_keeps [of I env ?s0] de pre by (simp add: run)
  next
    case RedirectTimeout
    then show ?thesis using pre by (simp add: run)
  next
    case (ObserverCleanup r)
    then show ?thesis using oc by (simp add: run)
  next
    case (WarningHide w a)
    then show ?thesis using wh by (simp add: run)
  next
    case (WarningRemove w)
    then show ?thesis using wr by (simp add: run)
  qed
qed

lemma fire_unknown: "find (\<lambda>t. tid t = n) (timers s) = None \<Longrightarrow> fire env n s = Done s"
  by (simp add: fire_def)

lemma loadScript_keeps:
  assumes hd: "\<And>s. I s \<Longrightarrow> I (after (handleDevToolsDetected env s))"
    and co: "\<And>s c. I s \<Longrightarrow> I (s\<lparr>console_out := c\<rparr>)"
    and ael: "\<And>s h. I s \<Longrightarrow> I (addEventListener h s)"
    and sc: "\<And>s. I s \<Longrightarrow> I (startContinuousDetection s)"
    and su: "\<And>s. I s \<Longrightarrow> I (setupAdvancedProtection s)"
    and gi: "\<And>s. I s \<Longrightarrow> I (s\<lparr>globalInstance := True\<rparr>)"
    and init: "I (s\<lparr>isDevToolsOpen := False, protectionActive := False, warningShown := False,
                    detectionMethods := [], consoleSpamInterval := Undefined\<rparr>)"
  shows "I (after (loadScript env s))"
proof -
  note cc = console_call_keeps [of I, OF co]
  have da: "I (disableAllDevToolsAccess s')" if "I s'" for s'
    using that by (simp add: disableAllDevToolsAccess_def ael)
  have ii: "I (after (initImmediate env s'))" if "I s'" for s'
    using that probes_keep(4) [of I env s', OF hd co]
    by (simp add: initImmediate_def after_andThen_eq Let_def da sc su ael)
  have "I (after (constructor env s))"
    unfolding constructor_def using init by (rule ii)
  then show ?thesis
    by (simp add: loadScript_def after_andThen_eq cc gi)
qed

lemma find_tid_Some: "find (\<lambda>t. tid t = n) ts = Some t \<Longrightarrow> t \<in> set ts \<and> tid t = n"
  by (induction ts) (auto split: if_splits)

text \<open>One step of the event loop, and all reachable states.\<close>

lemma step_keeps:
  assumes s: "I s"
    and hd: "\<And>s. I s \<Longrightarrow> I (after (handleDevToolsDetected env s))"
    and de: "\<And>s'. fires RecheckTimeout st s \<Longrightarrow> I s' \<Longrightarrow> I (after (deactivateProtection env s'))"
    and sp: "\<And>s. I s \<Longrightarrow> I (after (spamTick env s))"
    and co: "\<And>s c. I s \<Longrightarrow> I (s\<lparr>console_out := c\<rparr>)"
    and ck: "\<And>s'. fires WindowSizeTick st s \<Longrightarrow> I s' \<Longrightarrow> I (checkIfReallyClosed s')"
    and di: "\<And>s. I s \<Longrightarrow> I (detectElementInspection s)"
    and sw: "\<And>s m. I s \<Longrightarrow> I (showWarning m s)"
    and wt: "\<And>s c. I s \<Longrightarrow> I (s\<lparr>clipboard := c\<rparr>)"
    and su: "\<And>s. I s \<Longrightarrow> I (setupAdvancedProtection s)"
    and dt: "\<And>t. t \<in> set (timers s) \<Longrightarrow> I (dropTimeout t s)"
    and oc: "\<And>t r. t \<in> set (timers s) \<Longrightarrow> callback t = ObserverCleanup r \<Longrightarrow>
               I (observerCleanup r (dropTimeout t s))"
    and wh: "\<And>t w a. t \<in> set (timers s) \<Longrightarrow> callback t = WarningHide w a \<Longrightarrow>
               I (warningHide w a (dropTimeout t s))"
    and wr: "\<And>t w. t \<in> set (timers s) \<Longrightarrow> callback t = WarningRemove w \<Longrightarrow>
               I (removeNode w (dropTimeout t s))"
  shows "I (after (step_fn env st s))"
proof (cases st)
  case (Fire n)
  show ?thesis
  proof (cases "find (\<lambda>t. tid t = n) (timers s)")
    case None
    with s Fire show ?thesis by (simp add: fire_unknown)
  next
    case (Some t)
    then have mem: "t \<in> set (timers s)" using find_tid_Some by blast
    have f: "fires c st s = (callback t = c)" for c
      using Fire Some by (simp add: fires_def)
    have "I (after (fire env n s))"
      using Some dt [OF mem] hd de [unfolded f] co ck [unfolded f] di sp
        oc [OF mem] wh [OF mem] wr [OF mem]
      by (rule fire_keeps [where I = I])
    with Fire show ?thesis by simp
  qed
next
  case (Dispatch e)
  show ?thesis
    unfolding Dispatch using hd sw wt su s by (rule dispatch_keeps [where I = I])
next
  case (AttrMutation r)
  show ?thesis
    using probes_keep(3) [of I env s r, OF hd co s] AttrMutation by simp
qed

lemma page_reset:
  "(page hnodes bnodes)\<lparr>isDevToolsOpen := False, protectionActive := False, warningShown := False,
      detectionMethods := [], consoleSpamInterval := Undefined\<rparr> = page hnodes bnodes"
  by (simp add: page_def)

lemma reachable_keeps:
  assumes r: "reachable P s"
    and init: "\<And>hnodes bnodes. clean_page hnodes bnodes \<Longrightarrow> I (page hnodes bnodes)"
    and hd: "\<And>env s. P env \<Longrightarrow> I s \<Longrightarrow> I (after (handleDevToolsDetected env s))"
    and de: "\<And>env s. P env \<Longrightarrow> I s \<Longrightarrow> I (after (deactivateProtection env s))"
    and sp: "\<And>env s. P env \<Longrightarrow> I s \<Longrightarrow> I (after (spamTick env s))"
    and co: "\<And>s c. I s \<Longrightarrow> I (s\<lparr>console_out := c\<rparr>)"
    and ck: "\<And>s. I s \<Longrightarrow> I (checkIfReallyClosed s)"
    and di: "\<And>s. I s \<Longrightarrow> I (detectElementInspection s)"
    and sw: "\<And>s m. I s \<Longrightarrow> I (showWarning m s)"
    and wt: "\<And>s c. I s \<Longrightarrow> I (s\<lparr>clipboard := c\<rparr>)"
    and su: "\<And>s. I s \<Longrightarrow> I (setupAdvancedProtection s)"
    and dt: "\<And>s t. I s \<Longrightarrow> t \<in> set (timers s) \<Longrightarrow> I (dropTimeout t s)"
    and oc: "\<And>s t r. I s \<Longrightarrow> t \<in> set (timers s) \<Longrightarrow> callback t = ObserverCleanup r \<Longrightarrow>
               I (observerCleanup r (dropTimeout t s))"
    and wh: "\<And>s t w a. I s \<Longrightarrow> t \<in> set (timers s) \<Longrightarrow> callback t = WarningHide w a \<Longrightarrow>
               I (warningHide w a (dropTimeout t s))"
    and wr: "\<And>s t w. I s \<Longrightarrow> t \<in> set (timers s) \<Longrightarrow> callback t = WarningRemove w \<Longrightarrow>
               I (removeNode w (dropTimeout t s))"
    and ael: "\<And>s h. I s \<Longrightarrow> I (addEventListener h s)"
    and sc: "\<And>s. I s \<Longrightarrow> I (startContinuousDetection s)"
    and gi: "\<And>s. I s \<Longrightarrow> I (s\<lparr>globalInstance := True\<rparr>)"
  shows "I s"
  using r
proof (induction rule: reachable.induct)
  case (loaded hnodes bnodes env)
  have "I ((page hnodes bnodes)\<lparr>isDevToolsOpen := False, protectionActive := False,
            warningShown := False, detectionMethods := [], consoleSpamInterval := Undefined\<rparr>)"
    unfolding page_reset using loaded(1) by (rule init)
  with hd [OF loaded(2)] co ael sc su gi show ?case
    by (intro loadScript_keeps [where I = I])
next
  case (stepped s env st)
  show ?case
    using stepped(3) hd [OF stepped(2)] de [OF stepped(2)] sp [OF stepped(2)] co ck di sw wt su
      dt [OF stepped(3)] oc [OF stepped(3)] wh [OF stepped(3)] wr [OF stepped(3)]
    by (rule step_keeps [where I = I])
qed

section \<open>The document invariant holds in every reachable state\<close>

lemma inv_dom_counts:
  assumes "count_id overlay_id s' = count_id overlay_id s"
    and "count_id active_style_id s' = count_id active_style_id s"
    and "protectionActive s' = protectionActive s"
  shows "inv_dom s' = inv_dom s"
  using assms by (simp add: inv_dom_def)

lemma count_id_page: "clean_page hnodes bnodes \<Longrightarrow> count_id overlay_id (page hnodes bnodes) = 0
    \<and> count_id active_style_id (page hnodes bnodes) = 0"
  by (auto simp: clean_page_def page_def count_id_def document_nodes_def list_all_iff
      filter_empty_conv)

lemma inv_dom_reachable:
  assumes "reachable P s"
  shows "inv_dom s"
  using assms
proof (rule reachable_keeps [where I = inv_dom])
  show "inv_dom (page hnodes bnodes)" if "clean_page hnodes bnodes" for hnodes bnodes
    using count_id_page [OF that] by (simp add: inv_dom_def)
  show "inv_dom (after (handleDevToolsDetected env s))" if "inv_dom s" for env s
    using that by (rule inv_dom_handleDevToolsDetected)
  show "inv_dom (after (deactivateProtection env s))" if "inv_dom s" for env s
    using that by (rule inv_dom_deactivateProtection)
  show "inv_dom (after (spamTick env s))" if "inv_dom s" for env s
    using that by (simp add: inv_dom_cong [of "after (spamTick env s)" s])
  show "inv_dom (s\<lparr>console_out := c\<rparr>)" if "inv_dom s" for s c
    using that by (simp add: inv_dom_cong [of "s\<lparr>console_out := c\<rparr>" s])
  show "inv_dom (checkIfReallyClosed s)" if "inv_dom s" for s
    using that by (simp add: inv_dom_cong [of "checkIfReallyClosed s" s])
  show "inv_dom (detectElementInspection s)" if "inv_dom s" for s
    using that
    by (simp add: inv_dom_counts [of "detectElementInspection s" s]
        count_id_detectElementInspection)
  show "inv_dom (showWarning m s)" if "inv_dom s" for s m
    using that by (simp add: inv_dom_counts [of "showWarning m s" s] count_id_showWarning)
  show "inv_dom (s\<lparr>clipboard := c\<rparr>)" if "inv_dom s" for s c
    using that by (simp add: inv_dom_cong [of "s\<lparr>clipboard := c\<rparr>" s])
  show "inv_dom (setupAdvancedProtection s)" if "inv_dom s" for s
    using that
    by (simp add: inv_dom_counts [of "setupAdvancedProtection s" s]
        count_id_setupAdvancedProtection)
  show "inv_dom (dropTimeout t s)" if "inv_dom s" for s t
    using that by (simp add: inv_dom_cong [of "dropTimeout t s" s])
  show "inv_dom (observerCleanup r (dropTimeout t s))" if "inv_dom s" for s t r
  proof (rule inv_dom_shrink [OF that])
    show "count_id i (observerCleanup r (dropTimeout t s)) \<le> count_id i s" for i
      using count_id_observerCleanup [of i r "dropTimeout t s"]
      by (simp add: count_id_cong [of "dropTimeout t s" s])
  qed simp
  show "inv_dom (warningHide w a (dropTimeout t s))" if "inv_dom s" for s t w a
  proof (rule inv_dom_shrink [OF that])
    show "count_id i (warningHide w a (dropTimeout t s)) \<le> count_id i s" for i
      using count_id_warningHide [of i w a "dropTimeout t s"]
      by (simp add: count_id_cong [of "dropTimeout t s" s])
  qed simp
  show "inv_dom (removeNode w (dropTimeout t s))" if "inv_dom s" for s t w
  proof (rule inv_dom_shrink [OF that])
    show "count_id i (removeNode w (dropTimeout t s)) \<le> count_id i s" for i
      using count_id_removeNode [of i w "dropTimeout t s"]
      by (simp add: count_id_cong [of "dropTimeout t s" s])
  qed simp
  show "inv_dom (addEventListener h s)" if "inv_dom s" for s h
    using that by (simp add: inv_dom_cong [of "addEventListener h s" s])
  show "inv_dom (startContinuousDetection s)" if "inv_dom s" for s
    using that by (simp add: inv_dom_cong [of "startContinuousDetection s" s])
  show "inv_dom (s\<lparr>globalInstance := True\<rparr>)" if "inv_dom s" for s
    using that by (simp add: inv_dom_cong [of "s\<lparr>globalInstance := True\<rparr>" s])
qed

section \<open>At most one console-spam timer\<close>

lemma tm_ok_add:
  assumes "c \<noteq> SpamTick" and "tm_ok ts nt h"
  shows "tm_ok (ts @ [\<lparr>tid = nt, repeating = b, period = p, callback = c\<rparr>]) (Suc nt) h"
  using assms unfolding tm_ok_def by (auto simp: less_Suc_eq)
lemma tm_ok_truthy:
  assumes "tm_ok ts nt h"
  shows "truthy h = (filter (\<lambda>t. callback t = SpamTick) ts \<noteq> [])"
proof (cases h)
  case (TimerId n)
  with assms obtain t where t: "t \<in> set ts" "tid t = n" "callback t = SpamTick"
    unfolding tm_ok_def by blast
  with assms have "1 \<le> n" unfolding tm_ok_def by blast
  with t TimerId show ?thesis by (auto simp: filter_empty_conv)
next
  case Undefined
  with assms show ?thesis by (auto simp: tm_ok_def filter_empty_conv)
next
  case Null
  with assms show ?thesis by (auto simp: tm_ok_def filter_empty_conv)
qed

lemma tm_ok_add_spam:
  assumes "tm_ok ts nt h" and "\<not> truthy h"
  shows "tm_ok (ts @ [\<lparr>tid = nt, repeating = True, period = p, callback = SpamTick\<rparr>]) (Suc nt)
           (TimerId nt)"
proof -
  from assms have "\<forall>t \<in> set ts. callback t \<noteq> SpamTick"
    by (simp add: tm_ok_truthy filter_empty_conv)
  with assms(1) show ?thesis unfolding tm_ok_def by (auto simp: less_Suc_eq)
qed

lemma tm_ok_parts:
  assumes "tm_ok ts nt h"
  shows "1 \<le> nt" and "\<forall>t \<in> set ts. 1 \<le> tid t \<and> tid t < nt" and "distinct (map tid ts)"
    and "\<forall>t \<in> set ts. callback t = SpamTick \<longrightarrow> h = TimerId (tid t) \<and> repeating t"
    and "\<forall>n. h = TimerId n \<longrightarrow> (\<exists>t \<in> set ts. tid t = n \<and> callback t = SpamTick)"
  using assms unfolding tm_ok_def by blast+

lemma tm_ok_filter:
  assumes ok: "tm_ok ts nt h" and keep: "\<forall>t \<in> set ts. callback t = SpamTick \<longrightarrow> P t"
  shows "tm_ok (filter P ts) nt h"
proof -
  note p = tm_ok_parts [OF ok]
  have c: "distinct (map tid (filter P ts))" using p(3) by (rule distinct_map_filter)
  have e: "\<forall>n. h = TimerId n \<longrightarrow> (\<exists>t \<in> set (filter P ts). tid t = n \<and> callback t = SpamTick)"
  proof (intro allI impI)
    fix n assume "h = TimerId n"
    with p(5) obtain t where "t \<in> set ts" "tid t = n" "callback t = SpamTick" by blast
    with keep show "\<exists>t \<in> set (filter P ts). tid t = n \<and> callback t = SpamTick" by auto
  qed
  show ?thesis
    unfolding tm_ok_def using p(1,2,4) c e by simp
qed

lemma tm_ok_clear:
  assumes ok: "tm_ok ts nt h"
  shows "tm_ok (case h of TimerId n \<Rightarrow> filter (\<lambda>t. tid t \<noteq> n) ts | _ \<Rightarrow> ts) nt Null"
proof -
  note p = tm_ok_parts [OF ok]
  let ?ts = "case h of TimerId n \<Rightarrow> filter (\<lambda>t. tid t \<noteq> n) ts | _ \<Rightarrow> ts"
  have sub: "set ?ts \<subseteq> set ts" by (cases h) auto
  have c: "distinct (map tid ?ts)" using p(3) by (cases h) (simp_all add: distinct_map_filter)
  have d: "\<forall>t \<in> set ?ts. callback t \<noteq> SpamTick"
  proof
    fix t assume t: "t \<in> set ?ts"
    show "callback t \<noteq> SpamTick"
    proof
      assume "callback t = SpamTick"
      with t sub p(4) have "h = TimerId (tid t)" by blast
      with t show False by simp
    qed
  qed
  have b: "\<forall>t \<in> set ?ts. 1 \<le> tid t \<and> tid t < nt" using p(2) sub by blast
  show ?thesis
    unfolding tm_ok_def using p(1) b c d by simp
qed

lemma tm_ok_drop:
  assumes ok: "tm_ok ts nt h" and "t \<in> set ts" and "\<not> repeating t"
  shows "tm_ok (filter (\<lambda>u. tid u \<noteq> tid t) ts) nt h"
proof -
  note p = tm_ok_parts [OF ok]
  from p(4) assms(2,3) have ns: "callback t \<noteq> SpamTick" by blast
  have "\<forall>u \<in> set ts. callback u = SpamTick \<longrightarrow> tid u \<noteq> tid t"
  proof (intro ballI impI)
    fix u assume u: "u \<in> set ts" "callback u = SpamTick"
    with ns have "u \<noteq> t" by auto
    with p(3) u(1) assms(2) show "tid u \<noteq> tid t" by (auto simp: distinct_map inj_on_def)
  qed
  with ok show ?thesis by (rule tm_ok_filter)
qed

lemma inv_tm_cong:
  "timers s' = timers s \<Longrightarrow> next_timer s' = next_timer s \<Longrightarrow>
   consoleSpamInterval s' = consoleSpamInterval s \<Longrightarrow> inv_tm s' = inv_tm s"
  by (simp add: inv_tm_def)

lemma inv_tm_setTimeout:
  assumes "c \<noteq> SpamTick" and "inv_tm s"
  shows "inv_tm (snd (setTimeout c ms s))"
  using tm_ok_add [OF assms(1), of "timers s" "next_timer s" "consoleSpamInterval s" False ms] assms(2)
  by (simp add: inv_tm_def setTimeout_def)

lemma inv_tm_setInterval:
  assumes "c \<noteq> SpamTick" and "inv_tm s"
  shows "inv_tm (snd (setInterval c ms s))"
  using tm_ok_add [OF assms(1), of "timers s" "next_timer s" "consoleSpamInterval s" True ms] assms(2)
  by (simp add: inv_tm_def setInterval_def)

lemma inv_tm_truthy: "inv_tm s \<Longrightarrow> truthy (consoleSpamInterval s) = (spam_timers s \<noteq> [])"
  unfolding inv_tm_def spam_timers_def by (rule tm_ok_truthy)

lemma inv_tm_startConsoleSpam:
  assumes "inv_tm s"
  shows "inv_tm (startConsoleSpam s)"
proof (cases "truthy (consoleSpamInterval s)")
  case True
  with assms show ?thesis by (simp add: startConsoleSpam_def)
next
  case False
  have "startConsoleSpam s =
      s\<lparr>timers := timers s @ [\<lparr>tid = next_timer s, repeating = True, period = 100,
                                callback = SpamTick\<rparr>],
        next_timer := Suc (next_timer s), consoleSpamInterval := TimerId (next_timer s)\<rparr>"
    using False by (simp add: startConsoleSpam_def setInterval_def)
  then show ?thesis
    using tm_ok_add_spam [of "timers s" "next_timer s" "consoleSpamInterval s" 100] assms False
    by (simp add: inv_tm_def)
qed

lemma timers_clearInterval:
  "timers (clearInterval h s) = (case h of TimerId n \<Rightarrow> filter (\<lambda>t. tid t \<noteq> n) (timers s) | _ \<Rightarrow> timers s)"
  by (cases h) simp_all

lemma inv_tm_cleared:
  assumes "inv_tm s"
  shows "inv_tm ((clearInterval (consoleSpamInterval s) s)\<lparr>consoleSpamInterval := Null\<rparr>)"
  using tm_ok_clear [of "timers s" "next_timer s" "consoleSpamInterval s"] assms
  by (simp add: inv_tm_def timers_clearInterval)

lemma inv_tm_stopConsoleSpam: "inv_tm s \<Longrightarrow> inv_tm (stopConsoleSpam s)"
  by (simp add: stopConsoleSpam_def inv_tm_cleared)

lemma inv_tm_spamTick:
  assumes "inv_tm s"
  shows "inv_tm (after (spamTick env s))"
proof (cases "protectionActive s")
  case False
  then show ?thesis using assms by (subst spamTick_after) (simp add: inv_tm_cleared)
next
  case True
  have "inv_tm (after (spamTick env s)) = inv_tm s"
    by (rule inv_tm_cong; subst spamTick_after; simp add: True)
  with assms show ?thesis by simp
qed

lemma inv_tm_dropTimeout:
  assumes "inv_tm s" and "t \<in> set (timers s)"
  shows "inv_tm (dropTimeout t s)"
proof (cases "repeating t")
  case True
  with assms show ?thesis by (simp add: dropTimeout_def)
next
  case False
  then show ?thesis
    using tm_ok_drop [of "timers s" "next_timer s" "consoleSpamInterval s" t] assms
    by (simp add: inv_tm_def dropTimeout_def)
qed

lemma inv_tm_activateProtection:
  assumes "inv_tm s"
  shows "inv_tm (after (activateProtection env s))"
proof -
  have a: "inv_tm (s\<lparr>protectionActive := True\<rparr>)"
    using assms by (simp add: inv_tm_cong [of "s\<lparr>protectionActive := True\<rparr>" s])
  have b: "inv_tm (applyVisualRestrictions (startConsoleSpam (classList_add c s')))"
    if "inv_tm s'" for s' c
  proof -
    have "inv_tm (classList_add c s')"
      using that by (simp add: inv_tm_cong [of "classList_add c s'" s'])
    then have "inv_tm (startConsoleSpam (classList_add c s'))" by (rule inv_tm_startConsoleSpam)
    then show ?thesis
      by (simp add: inv_tm_cong [of "applyVisualRestrictions (startConsoleSpam (classList_add c s'))"
            "startConsoleSpam (classList_add c s')"])
  qed
  have c: "inv_tm (s'\<lparr>console_out := x\<rparr>)" if "inv_tm s'" for s' x
    using that by (simp add: inv_tm_cong [of "s'\<lparr>console_out := x\<rparr>" s'])
  show ?thesis
    using assms a b [OF c [OF a]]
    by (simp add: activateProtection_def after_andThen_eq console_call_def)
qed

lemma inv_tm_handleDevToolsDetected:
  assumes "inv_tm s"
  shows "inv_tm (after (handleDevToolsDetected env s))"
proof (cases "isDevToolsOpen s")
  case True
  then show ?thesis using assms by (simp add: handleDevToolsDetected_noop)
next
  case False
  let ?s0 = "s\<lparr>isDevToolsOpen := True\<rparr>"
  have "inv_tm ?s0 = inv_tm s" by (rule inv_tm_cong) simp_all
  with assms have i0: "inv_tm ?s0" by simp
  show ?thesis
  proof (cases "consoleThrows env")
    case True
    with False have "after (handleDevToolsDetected env s) = ?s0"
      by (simp add: handleDevToolsDetected_def console_call_def)
    with i0 show ?thesis by simp
  next
    case nothrow: False
    let ?s1 = "s\<lparr>isDevToolsOpen := True,
                 console_out := console_out s @ [(Log, ''Developer tools detected!'')]\<rparr>"
    let ?s2 = "after (activateProtection env ?s1)"
    let ?s3 = "(showProtectionOverlay ?s2)\<lparr>body_filter := ''blur(8px)'', body_opacity := ''0.3'',
                       body_pointerEvents := ''none''\<rparr>"
    have "inv_tm ?s1 = inv_tm s" by (rule inv_tm_cong) simp_all
    with assms have "inv_tm ?s1" by simp
    then have "inv_tm ?s2" by (rule inv_tm_activateProtection)
    moreover have "inv_tm ?s3 = inv_tm ?s2" by (rule inv_tm_cong) simp_all
    ultimately have "inv_tm (snd (setTimeout RedirectTimeout 5000 ?s3))"
      by (intro inv_tm_setTimeout) simp_all
    moreover have "after (handleDevToolsDetected env s) = snd (setTimeout RedirectTimeout 5000 ?s3)"
      using False nothrow
      by (simp add: handleDevToolsDetected_def after_andThen_eq console_call_def
          activateProtection_threw)
    ultimately show ?thesis by simp
  qed
qed

lemma inv_tm_deactivateProtection:
  assumes "inv_tm s"
  shows "inv_tm (after (deactivateProtection env s))"
proof -
  let ?s3 = "removeById overlay_id (removeById active_style_id
               (classList_remove ''protection-active''
                 (s\<lparr>protectionActive := False, isDevToolsOpen := False\<rparr>)))"
  obtain c where res: "after (deactivateProtection env s) =
      (stopConsoleSpam ?s3)\<lparr>body_filter := '''', body_pointerEvents := '''',
         body_opacity := '''', console_out := c\<rparr>"
    using deactivateProtection_after by blast
  have "inv_tm ?s3 = inv_tm s" by (rule inv_tm_cong) simp_all
  with assms have "inv_tm (stopConsoleSpam ?s3)" by (simp add: inv_tm_stopConsoleSpam)
  moreover have "inv_tm (after (deactivateProtection env s)) = inv_tm (stopConsoleSpam ?s3)"
    unfolding res by (rule inv_tm_cong) simp_all
  ultimately show ?thesis by simp
qed

lemma inv_tm_detectElementInspection:
  assumes "inv_tm s"
  shows "inv_tm (detectElementInspection s)"
proof -
  let ?n = "\<lparr>ref = next_ref s, tag = ''div'', nid = '''', ntext = '''', clickGuard = False\<rparr>"
  let ?s1 = "s\<lparr>next_ref := Suc (next_ref s), body_nodes := body_nodes s @ [?n],
               observers := observers s @ [next_ref s]\<rparr>"
  have "inv_tm ?s1 = inv_tm s" by (rule inv_tm_cong) simp_all
  with assms have "inv_tm (snd (setTimeout (ObserverCleanup (next_ref s)) 10000 ?s1))"
    by (intro inv_tm_setTimeout) simp_all
  then show ?thesis
    by (simp add: detectElementInspection_def createElement_def appendBody_def)
qed

lemma inv_tm_showWarning:
  assumes "inv_tm s"
  shows "inv_tm (showWarning m s)"
proof (cases "warningShown s")
  case True
  with assms show ?thesis by (simp add: showWarning_def)
next
  case False
  let ?w = "\<lparr>ref = next_ref s, tag = ''div'', nid = '''', ntext = m, clickGuard = False\<rparr>"
  let ?a = "\<lparr>ref = Suc (next_ref s), tag = ''style'', nid = '''', ntext = '''',
             clickGuard = False\<rparr>"
  let ?s1 = "s\<lparr>warningShown := True, next_ref := Suc (Suc (next_ref s)),
               body_nodes := body_nodes s @ [?w], head_nodes := head_nodes s @ [?a]\<rparr>"
  have "inv_tm ?s1 = inv_tm s" by (rule inv_tm_cong) simp_all
  with assms have "inv_tm (snd (setTimeout (WarningHide (next_ref s) (Suc (next_ref s))) 4000 ?s1))"
    by (intro inv_tm_setTimeout) simp_all
  moreover have "showWarning m s
      = snd (setTimeout (WarningHide (next_ref s) (Suc (next_ref s))) 4000 ?s1)"
    using False by (simp add: showWarning_def createElement_def appendBody_def appendHead_def
        setTimeout_def)
  ultimately show ?thesis by simp
qed

lemma inv_tm_warningHide:
  assumes "inv_tm s"
  shows "inv_tm (warningHide w a s)"
proof -
  let ?s1 = "if hasParent w s then snd (setTimeout (WarningRemove w) 400 s) else s"
  let ?s2 = "?s1\<lparr>warningShown := False\<rparr>"
  have "inv_tm ?s1" using assms by (simp add: inv_tm_setTimeout)
  moreover have "inv_tm ?s2 = inv_tm ?s1" by (rule inv_tm_cong) simp_all
  moreover have "inv_tm (removeNode a ?s2) = inv_tm ?s2" by (rule inv_tm_cong) simp_all
  ultimately show ?thesis by (simp add: warningHide_def Let_def)
qed

lemma inv_tm_startContinuousDetection:
  "inv_tm s \<Longrightarrow> inv_tm (startContinuousDetection s)"
  unfolding startContinuousDetection_def by (intro inv_tm_setInterval) simp_all

lemma inv_tm_reachable:
  assumes "reachable P s"
  shows "inv_tm s"
  using assms
proof (rule reachable_keeps [where I = inv_tm])
  show "inv_tm (page hnodes bnodes)" for hnodes bnodes
    by (simp add: inv_tm_def tm_ok_def page_def)
  show "inv_tm (after (handleDevToolsDetected env s))" if "inv_tm s" for env s
    using that by (rule inv_tm_handleDevToolsDetected)
  show "inv_tm (after (deactivateProtection env s))" if "inv_tm s" for env s
    using that by (rule inv_tm_deactivateProtection)
  show "inv_tm (after (spamTick env s))" if "inv_tm s" for env s
    using that by (rule inv_tm_spamTick)
  show "inv_tm (s\<lparr>console_out := c\<rparr>)" if "inv_tm s" for s c
    using that by (simp add: inv_tm_cong [of "s\<lparr>console_out := c\<rparr>" s])
  show "inv_tm (checkIfReallyClosed s)" if "inv_tm s" for s
    using that by (simp add: checkIfReallyClosed_def inv_tm_setTimeout)
  show "inv_tm (detectElementInspection s)" if "inv_tm s" for s
    using that by (rule inv_tm_detectElementInspection)
  show "inv_tm (showWarning m s)" if "inv_tm s" for s m
    using that by (rule inv_tm_showWarning)
  show "inv_tm (s\<lparr>clipboard := c\<rparr>)" if "inv_tm s" for s c
    using that by (simp add: inv_tm_cong [of "s\<lparr>clipboard := c\<rparr>" s])
  show "inv_tm (setupAdvancedProtection s)" if "inv_tm s" for s
    using that by (simp add: inv_tm_cong [of "setupAdvancedProtection s" s])
  show dt: "inv_tm (dropTimeout t s)" if "inv_tm s" "t \<in> set (timers s)" for s t
    using that by (rule inv_tm_dropTimeout)
  show "inv_tm (observerCleanup r (dropTimeout t s))"
    if "inv_tm s" "t \<in> set (timers s)" for s t r
    using dt [OF that]
    by (simp add: inv_tm_cong [of "observerCleanup r (dropTimeout t s)" "dropTimeout t s"])
  show "inv_tm (warningHide w a (dropTimeout t s))"
    if "inv_tm s" "t \<in> set (timers s)" for s t w a
    using dt [OF that] by (rule inv_tm_warningHide)
  show "inv_tm (removeNode w (dropTimeout t s))"
    if "inv_tm s" "t \<in> set (timers s)" for s t w
    using dt [OF that]
    by (simp add: inv_tm_cong [of "removeNode w (dropTimeout t s)" "dropTimeout t s"])
  show "inv_tm (addEventListener h s)" if "inv_tm s" for s h
    using that by (simp add: inv_tm_cong [of "addEventListener h s" s])
  show "inv_tm (startContinuousDetection s)" if "inv_tm s" for s
    using that by (rule inv_tm_startContinuousDetection)
  show "inv_tm (s\<lparr>globalInstance := True\<rparr>)" if "inv_tm s" for s
    using that by (simp add: inv_tm_cong [of "s\<lparr>globalInstance := True\<rparr>" s])
qed

lemma loaded_state_reachable: "reachable any_env loaded_state"
  unfolding loaded_state_def
  by (rule reachable.loaded) (simp_all add: clean_page_def any_env_def)

lemma detected_state_reachable: "reachable any_env detected_state"
  unfolding detected_state_def
  by (rule reachable.stepped [OF loaded_state_reachable]) (simp add: any_env_def)

lemma tm_ok_one_spam:
  assumes "tm_ok ts nt h"
  shows "length (filter (\<lambda>t. callback t = SpamTick) ts) \<le> 1"
proof -
  note p = tm_ok_parts [OF assms]
  let ?xs = "map tid (filter (\<lambda>t. callback t = SpamTick) ts)"
  have d: "distinct ?xs" using p(3) by (rule distinct_map_filter)
  have same: "\<forall>x \<in> set ?xs. h = TimerId x" using p(4) by auto
  have "length ?xs \<le> 1"
  proof (cases ?xs)
    case Nil
    then show ?thesis by simp
  next
    case (Cons x xs)
    have "xs = []"
    proof (cases xs)
      case Nil
      then show ?thesis .
    next
      case (Cons y ys)
      with \<open>?xs = x # xs\<close> same have "h = TimerId x" "h = TimerId y"
        by (metis list.set_intros(1), metis list.set_intros(1,2))
      then have "x = y" by simp
      with d \<open>?xs = x # xs\<close> Cons show ?thesis by simp
    qed
    with Cons show ?thesis by simp
  qed
  then show ?thesis by simp
qed

lemma inv_tm_one_spam: "inv_tm s \<Longrightarrow> length (spam_timers s) \<le> 1"
  unfolding inv_tm_def spam_timers_def by (rule tm_ok_one_spam)

lemma startConsoleSpam_truthy:
  assumes "inv_tm s"
  shows "truthy (consoleSpamInterval (startConsoleSpam s))"
proof (cases "truthy (consoleSpamInterval s)")
  case True
  then show ?thesis by (simp add: startConsoleSpam_def)
next
  case False
  from assms have "1 \<le> next_timer s" unfolding inv_tm_def by (rule tm_ok_parts(1))
  with False show ?thesis by (simp add: startConsoleSpam_def setInterval_def)
qed

lemma stopConsoleSpam_falsy: "\<not> truthy (consoleSpamInterval (stopConsoleSpam s))"
  by (simp add: stopConsoleSpam_def)

section \<open>The sample states, evaluated\<close>

lemmas eval_defs = prim_defs overlay_id_def active_style_id_def document_nodes_def getElementById_def
  console_call_def console_clear_def preventDefault_def stopPropagation_def heightDiff_def widthDiff_def
  startConsoleSpam_def applyVisualRestrictions_def activateProtection_def showProtectionOverlay_def
  handleDevToolsDetected_def stopConsoleSpam_def removeById_def deactivateProtection_def
  checkIfReallyClosed_def recheckTimeout_def detectByWindowSize_def detectByConsole_def detectByTiming_def
  detectElementInspection_def mutationCallback_def observerCleanup_def detectExistingDevTools_def
  disableAllDevToolsAccess_def startContinuousDetection_def setupAdvancedListeners_def
  setupAdvancedProtection_def initImmediate_def constructor_def loadScript_def
  blockedShortcut_def keydownListener_def contextmenuListener_def middleClickListener_def
  dragstartListener_def copyListener_def beforeprintListener_def keyupListener_def
  dispatch_def fire_def dropTimeout_def page_def env_quiet_def env_docked_def env_closed_def env_console_broken_def
  env_clipboard_broken_def sample_event_def showWarning_def tryWriteText_def writeText_def setData_def

lemma loaded_state_eq: "loaded_state =
  \<lparr>isDevToolsOpen = False, protectionActive = False, warningShown = False,
    detectionMethods = [], consoleSpamInterval = Undefined,
    head_nodes =
      [\<lparr>ref = 1, tag = ''style'', nid = ''comprehensive-protection'',
          ntext = [], clickGuard = False\<rparr>],
    body_nodes = [], body_classes = [], body_filter = [], body_opacity = [],
    body_pointerEvents = [],
    listeners =
      [KeydownHandler, ContextMenuHandler, MiddleClickHandler,
       DragStartHandler, CopyHandler, BeforePrintHandler, KeyupHandler],
    timers =
      [\<lparr>tid = 1, repeating = True, period = 500, callback = WindowSizeTick\<rparr>,
       \<lparr>tid = 2, repeating = True, period = 1000, callback = ConsoleTick\<rparr>,
       \<lparr>tid = 3, repeating = True, period = 2000, callback = TimingTick\<rparr>,
       \<lparr>tid = 4, repeating = True, period = 1500,
          callback = InspectionTick\<rparr>],
    observers = [], next_timer = 5, next_ref = 2,
    console_out =
      [(Log, ''[object HTMLImageElement]''),
       (Log, ''Site protection loaded'')],
    clipboard = [], globalInstance = True, fetchWrapped = False\<rparr>"
  by (simp add: loaded_state_def eval_defs)

lemma detected_state_eq: "detected_state = 
 \<lparr>isDevToolsOpen = True, protectionActive = True, warningShown = False,
    detectionMethods = [], consoleSpamInterval = TimerId 5,
    head_nodes =
      [\<lparr>ref = 1, tag = ''style'', nid = ''comprehensive-protection'',
          ntext = [], clickGuard = False\<rparr>,
       \<lparr>ref = 2, tag = ''style'', nid = ''active-protection-style'',
          ntext = [], clickGuard = False\<rparr>],
    body_nodes =
      [\<lparr>ref = 3, tag = ''div'', nid = ''devtools-overlay'',
          ntext = ''Developer Tools Detected'', clickGuard = True\<rparr>],
    body_classes = [''protection-active''], body_filter = ''blur(8px)'',
    body_opacity = ''0.3'', body_pointerEvents = ''none'',
    listeners =
      [KeydownHandler, ContextMenuHandler, MiddleClickHandler,
       DragStartHandler, CopyHandler, BeforePrintHandler, KeyupHandler],
    timers =
      [\<lparr>tid = 1, repeating = True, period = 500, callback = WindowSizeTick\<rparr>,
       \<lparr>tid = 2, repeating = True, period = 1000, callback = ConsoleTick\<rparr>,
       \<lparr>tid = 3, repeating = True, period = 2000, callback = TimingTick\<rparr>,
       \<lparr>tid = 4, repeating = True, period = 1500,
          callback = InspectionTick\<rparr>,
       \<lparr>tid = 5, repeating = True, period = 100, callback = SpamTick\<rparr>,
       \<lparr>tid = 6, repeating = False, period = 5000,
          callback = RedirectTimeout\<rparr>],
    observers = [], next_timer = 7, next_ref = 4,
    console_out =
      [(Log, ''[object HTMLImageElement]''),
       (Log, ''Site protection loaded''),
       (Log, ''Developer tools detected!''),
       (Log, ''Full protection activated'')],
    clipboard = [], globalInstance = True, fetchWrapped = False\<rparr>"
  by (simp add: detected_state_def loaded_state_eq eval_defs)

lemma recheck_pending_state_eq: "recheck_pending_state =
  detected_state\<lparr>timers := timers detected_state @
     [\<lparr>tid = 7, repeating = False, period = 1000, callback = RecheckTimeout\<rparr>],
    next_timer := 8\<rparr>"
  by (simp add: recheck_pending_state_def detected_state_eq eval_defs)

lemma recheck_pending_state_reachable: "reachable any_env recheck_pending_state"
  unfolding recheck_pending_state_def
  by (rule reachable.stepped [OF detected_state_reachable]) (simp add: any_env_def)

section \<open>Which steps change the belief state\<close>

lemma open_kept:
  assumes "isDevToolsOpen s" and "\<not> fires RecheckTimeout st s"
  shows "isDevToolsOpen (after (step_fn env st s))"
  using assms(1)
proof (rule step_keeps [where I = isDevToolsOpen])
  show "isDevToolsOpen (after (deactivateProtection env s'))"
    if "fires RecheckTimeout st s" for s'
    using that assms(2) by simp
qed (use assms(1) in simp_all)




section \<open>Which callbacks get scheduled\<close>

text \<open>
  Apart from \<^verbatim>\<open>checkIfReallyClosed\<close>, no operation schedules a re-check, and no operation
  schedules the global-symbol scan: a property of all pending re-check timers (or scan
  timers) survives every other operation.
\<close>

lemma timers_sat_cong: "timers s' = timers s \<Longrightarrow> timers_sat c Q s' = timers_sat c Q s"
  by (simp add: timers_sat_def)

lemma timers_sat_setTimeout:
  "c' \<noteq> c \<Longrightarrow> timers_sat c Q s \<Longrightarrow> timers_sat c Q (snd (setTimeout c' ms s))"
  by (simp add: timers_sat_def setTimeout_def)

lemma timers_sat_setInterval:
  "c' \<noteq> c \<Longrightarrow> timers_sat c Q s \<Longrightarrow> timers_sat c Q (snd (setInterval c' ms s))"
  by (simp add: timers_sat_def setInterval_def)

lemma timers_sat_startConsoleSpam:
  "c \<noteq> SpamTick \<Longrightarrow> timers_sat c Q s \<Longrightarrow> timers_sat c Q (startConsoleSpam s)"
  by (simp add: timers_sat_def startConsoleSpam_def setInterval_def)

lemma timers_sat_cleared:
  assumes "timers_sat c Q s"
  shows "timers_sat c Q ((clearInterval h s)\<lparr>consoleSpamInterval := Null\<rparr>)"
  using assms by (cases h) (simp_all add: timers_sat_def list_all_iff)

lemma timers_sat_stopConsoleSpam: "timers_sat c Q s \<Longrightarrow> timers_sat c Q (stopConsoleSpam s)"
  by (simp add: stopConsoleSpam_def timers_sat_cleared)

lemma timers_sat_spamTick:
  assumes "timers_sat c Q s"
  shows "timers_sat c Q (after (spamTick env s))"
proof (cases "protectionActive s")
  case False
  then show ?thesis using assms by (subst spamTick_after) (simp add: timers_sat_cleared)
next
  case True
  have "timers_sat c Q (after (spamTick env s)) = timers_sat c Q s"
    by (rule timers_sat_cong; subst spamTick_after; simp add: True)
  with assms show ?thesis by simp
qed

lemma timers_sat_dropTimeout: "timers_sat c Q s \<Longrightarrow> timers_sat c Q (dropTimeout t s)"
  by (simp add: dropTimeout_def timers_sat_def list_all_iff)

lemma timers_sat_activateProtection:
  assumes "c \<noteq> SpamTick" and "timers_sat c Q s"
  shows "timers_sat c Q (after (activateProtection env s))"
proof -
  have b: "timers_sat c Q (applyVisualRestrictions (startConsoleSpam (classList_add k s')))"
    if "timers_sat c Q s'" for s' k
  proof -
    have "timers_sat c Q (classList_add k s')"
      using that by (simp add: timers_sat_cong [of "classList_add k s'" s'])
    with assms(1) have "timers_sat c Q (startConsoleSpam (classList_add k s'))"
      by (rule timers_sat_startConsoleSpam)
    then show ?thesis
      by (simp add: timers_sat_cong
            [of "applyVisualRestrictions (startConsoleSpam (classList_add k s'))"
              "startConsoleSpam (classList_add k s')"])
  qed
  have a: "timers_sat c Q (s\<lparr>protectionActive := True\<rparr>)"
    using assms(2) by (simp add: timers_sat_def)
  have a': "timers_sat c Q (s\<lparr>protectionActive := True, console_out := x\<rparr>)" for x
    using assms(2) by (simp add: timers_sat_def)
  show ?thesis
    using assms(2) a b [OF a']
    by (simp add: activateProtection_def after_andThen_eq console_call_def)
qed

lemma timers_sat_handleDevToolsDetected:
  assumes c: "c \<noteq> SpamTick" "c \<noteq> RedirectTimeout" and s: "timers_sat c Q s"
  shows "timers_sat c Q (after (handleDevToolsDetected env s))"
proof (cases "isDevToolsOpen s")
  case True
  then show ?thesis using s by (simp add: handleDevToolsDetected_noop)
next
  case False
  show ?thesis
  proof (cases "consoleThrows env")
    case True
    with False have "after (handleDevToolsDetected env s) = s\<lparr>isDevToolsOpen := True\<rparr>"
      by (simp add: handleDevToolsDetected_def console_call_def)
    with s show ?thesis by (simp add: timers_sat_def)
  next
    case nothrow: False
    let ?s1 = "s\<lparr>isDevToolsOpen := True,
                 console_out := console_out s @ [(Log, ''Developer tools detected!'')]\<rparr>"
    let ?s2 = "after (activateProtection env ?s1)"
    let ?s3 = "(showProtectionOverlay ?s2)\<lparr>body_filter := ''blur(8px)'', body_opacity := ''0.3'',
                       body_pointerEvents := ''none''\<rparr>"
    have "timers_sat c Q ?s1" using s by (simp add: timers_sat_def)
    with c(1) have "timers_sat c Q ?s2" by (rule timers_sat_activateProtection)
    moreover have "timers_sat c Q ?s3 = timers_sat c Q ?s2" by (rule timers_sat_cong) simp
    ultimately have "timers_sat c Q (snd (setTimeout RedirectTimeout 5000 ?s3))"
      using c(2) by (intro timers_sat_setTimeout) simp_all
    moreover have "after (handleDevToolsDetected env s) = snd (setTimeout RedirectTimeout 5000 ?s3)"
      using False nothrow
      by (simp add: handleDevToolsDetected_def after_andThen_eq console_call_def
          activateProtection_threw)
    ultimately show ?thesis by simp
  qed
qed

lemma timers_sat_deactivateProtection:
  assumes "timers_sat c Q s"
  shows "timers_sat c Q (after (deactivateProtection env s))"
proof -
  let ?s3 = "removeById overlay_id (removeById active_style_id
               (classList_remove ''protection-active''
                 (s\<lparr>protectionActive := False, isDevToolsOpen := False\<rparr>)))"
  obtain x where res: "after (deactivateProtection env s) =
      (stopConsoleSpam ?s3)\<lparr>body_filter := '''', body_pointerEvents := '''',
         body_opacity := '''', console_out := x\<rparr>"
    using deactivateProtection_after by blast
  have "timers_sat c Q ?s3 = timers_sat c Q s" by (rule timers_sat_cong) simp
  with assms have "timers_sat c Q (stopConsoleSpam ?s3)" by (simp add: timers_sat_stopConsoleSpam)
  moreover have "timers_sat c Q (after (deactivateProtection env s))
      = timers_sat c Q (stopConsoleSpam ?s3)"
    unfolding res by (rule timers_sat_cong) simp
  ultimately show ?thesis by simp
qed

lemma timers_sat_detectElementInspection:
  assumes "c = RecheckTimeout \<or> c = GlobalSymbolTick" and "timers_sat c Q s"
  shows "timers_sat c Q (detectElementInspection s)"
  using assms
  by (auto simp: timers_sat_def detectElementInspection_def createElement_def appendBody_def
      setTimeout_def)

lemma timers_sat_showWarning:
  assumes "c = RecheckTimeout \<or> c = GlobalSymbolTick" and "timers_sat c Q s"
  shows "timers_sat c Q (showWarning m s)"
  using assms
  by (auto simp: timers_sat_def showWarning_def createElement_def appendBody_def appendHead_def
      setTimeout_def)

lemma timers_sat_warningHide:
  assumes "c = RecheckTimeout \<or> c = GlobalSymbolTick" and "timers_sat c Q s"
  shows "timers_sat c Q (warningHide w a s)"
proof -
  let ?s1 = "if hasParent w s then snd (setTimeout (WarningRemove w) 400 s) else s"
  let ?s2 = "?s1\<lparr>warningShown := False\<rparr>"
  have "timers_sat c Q ?s1" using assms by (auto simp: timers_sat_setTimeout)
  moreover have "timers_sat c Q ?s2 = timers_sat c Q ?s1" by (rule timers_sat_cong) simp
  moreover have "timers_sat c Q (removeNode a ?s2) = timers_sat c Q ?s2"
    by (rule timers_sat_cong) simp
  ultimately show ?thesis by (simp add: warningHide_def Let_def)
qed

text \<open>A step that is not the window-size probe keeps any property of the pending re-checks,
  and every step keeps any property of the pending global-symbol scans.\<close>

lemma timers_sat_step:
  assumes c: "c = RecheckTimeout \<and> \<not> fires WindowSizeTick st s \<or> c = GlobalSymbolTick"
    and s: "timers_sat c Q s"
  shows "timers_sat c Q (after (step_fn env st s))"
  using s
proof (rule step_keeps [where I = "timers_sat c Q"])
  from c have c': "c = RecheckTimeout \<or> c = GlobalSymbolTick" by blast
  show "timers_sat c Q (after (handleDevToolsDetected env s'))" if "timers_sat c Q s'" for s'
    using c' that by (intro timers_sat_handleDevToolsDetected) auto
  show "timers_sat c Q (after (deactivateProtection env s'))" if "timers_sat c Q s'" for s'
    using that by (rule timers_sat_deactivateProtection)
  show "timers_sat c Q (after (spamTick env s'))" if "timers_sat c Q s'" for s'
    using that by (rule timers_sat_spamTick)
  show "timers_sat c Q (s'\<lparr>console_out := x\<rparr>)" if "timers_sat c Q s'" for s' x
    using that by (simp add: timers_sat_def)
  show "timers_sat c Q (checkIfReallyClosed s')"
    if "fires WindowSizeTick st s" "timers_sat c Q s'" for s'
    using that c by (auto simp: checkIfReallyClosed_def timers_sat_setTimeout)
  show "timers_sat c Q (detectElementInspection s')" if "timers_sat c Q s'" for s'
    using c' that by (rule timers_sat_detectElementInspection)
  show "timers_sat c Q (showWarning m s')" if "timers_sat c Q s'" for s' m
    using c' that by (rule timers_sat_showWarning)
  show "timers_sat c Q (s'\<lparr>clipboard := x\<rparr>)" if "timers_sat c Q s'" for s' x
    using that by (simp add: timers_sat_def)
  show "timers_sat c Q (setupAdvancedProtection s')" if "timers_sat c Q s'" for s'
    using that by (simp add: timers_sat_cong [of "setupAdvancedProtection s'" s'])
  show dt: "timers_sat c Q (dropTimeout t s)" for t
    using s by (rule timers_sat_dropTimeout)
  show "timers_sat c Q (observerCleanup r (dropTimeout t s))" for t r
    using dt [of t]
    by (simp add: timers_sat_cong [of "observerCleanup r (dropTimeout t s)" "dropTimeout t s"])
  show "timers_sat c Q (warningHide w a (dropTimeout t s))" for t w a
    using c' dt [of t] by (rule timers_sat_warningHide)
  show "timers_sat c Q (removeNode w (dropTimeout t s))" for t w
    using dt [of t]
    by (simp add: timers_sat_cong [of "removeNode w (dropTimeout t s)" "dropTimeout t s"])
qed

text \<open>No reachable state has a pending global-symbol scan.\<close>

lemma no_global_symbol_timer:
  assumes "reachable P s"
  shows "timers_sat GlobalSymbolTick (\<lambda>t. False) s"
  using assms
proof (induction rule: reachable.induct)
  case (loaded hnodes bnodes env)
  let ?I = "timers_sat GlobalSymbolTick (\<lambda>t. False)"
  show ?case
  proof (rule loadScript_keeps [where I = ?I])
    show "?I (after (handleDevToolsDetected env s'))" if "?I s'" for s'
      using that by (intro timers_sat_handleDevToolsDetected) simp_all
    show "?I (s'\<lparr>console_out := x\<rparr>)" if "?I s'" for s' x
      using that by (simp add: timers_sat_def)
    show "?I (addEventListener h s')" if "?I s'" for s' h
      using that by (simp add: timers_sat_cong [of "addEventListener h s'" s'])
    show "?I (startContinuousDetection s')" if "?I s'" for s'
      using that unfolding startContinuousDetection_def
      by (intro timers_sat_setInterval) simp_all
    show "?I (setupAdvancedProtection s')" if "?I s'" for s'
      using that by (simp add: timers_sat_cong [of "setupAdvancedProtection s'" s'])
    show "?I (s'\<lparr>globalInstance := True\<rparr>)" if "?I s'" for s'
      using that by (simp add: timers_sat_def)
    show "?I ((page hnodes bnodes)\<lparr>isDevToolsOpen := False, protectionActive := False,
            warningShown := False, detectionMethods := [], consoleSpamInterval := Undefined\<rparr>)"
      by (simp add: timers_sat_def page_def)
  qed
next
  case (stepped s env st)
  then show ?case by (intro timers_sat_step) simp_all
qed

section \<open>Deactivation and the re-check\<close>

lemma deactivateProtection_clears:
  assumes "reachable P s"
  shows "getElementById overlay_id (after (deactivateProtection env s)) = None
         \<and> getElementById active_style_id (after (deactivateProtection env s)) = None
         \<and> body_filter (after (deactivateProtection env s)) = ''''
         \<and> body_opacity (after (deactivateProtection env s)) = ''''
         \<and> body_pointerEvents (after (deactivateProtection env s)) = ''''
         \<and> ''protection-active'' \<notin> set (body_classes (after (deactivateProtection env s)))
         \<and> spam_timers (after (deactivateProtection env s)) = []
         \<and> \<not> truthy (consoleSpamInterval (after (deactivateProtection env s)))
         \<and> \<not> isDevToolsOpen (after (deactivateProtection env s))
         \<and> \<not> protectionActive (after (deactivateProtection env s))"
proof -
  let ?s3 = "removeById overlay_id (removeById active_style_id
               (classList_remove ''protection-active''
                 (s\<lparr>protectionActive := False, isDevToolsOpen := False\<rparr>)))"
  obtain c where res: "after (deactivateProtection env s) =
      (stopConsoleSpam ?s3)\<lparr>body_filter := '''', body_pointerEvents := '''',
         body_opacity := '''', console_out := c\<rparr>"
    using deactivateProtection_after by blast
  have dom: "inv_dom s" and tm: "inv_tm s"
    using assms by (rule inv_dom_reachable, rule inv_tm_reachable)
  have nodes: "getElementById overlay_id (after (deactivateProtection env s)) = None"
    "getElementById active_style_id (after (deactivateProtection env s)) = None"
    using deactivateProtection_counts [OF dom] by (simp_all add: getElementById_count)
  have falsy: "\<not> truthy (consoleSpamInterval (after (deactivateProtection env s)))"
    unfolding res using stopConsoleSpam_falsy [of ?s3] by simp
  have "inv_tm (after (deactivateProtection env s))"
    using tm by (rule inv_tm_deactivateProtection)
  with falsy have spam: "spam_timers (after (deactivateProtection env s)) = []"
    by (simp add: inv_tm_truthy)
  have fields: "body_filter (after (deactivateProtection env s)) = ''''"
    "body_opacity (after (deactivateProtection env s)) = ''''"
    "body_pointerEvents (after (deactivateProtection env s)) = ''''"
    "''protection-active'' \<notin> set (body_classes (after (deactivateProtection env s)))"
    "\<not> isDevToolsOpen (after (deactivateProtection env s))"
    "\<not> protectionActive (after (deactivateProtection env s))"
    unfolding res by (simp_all add: classList_remove_def)
  from nodes falsy spam fields show ?thesis by simp
qed

lemma closing_step:
  assumes "isDevToolsOpen s" and "\<not> isDevToolsOpen (after (step_fn env st s))"
  shows "fires RecheckTimeout st s \<and> heightDiff env < 100 \<and> widthDiff env < 100"
proof -
  have f: "fires RecheckTimeout st s"
    using assms open_kept by blast
  then obtain n t where st: "st = Fire n" and t: "find (\<lambda>t. tid t = n) (timers s) = Some t"
    and cb: "callback t = RecheckTimeout"
    by (auto simp: fires_def split: step.splits option.splits)
  have "after (step_fn env st s) = after (recheckTimeout env (dropTimeout t s))"
    using st t cb by (simp add: fire_def)
  with assms have "heightDiff env < 100 \<and> widthDiff env < 100"
    by (auto simp: recheckTimeout_def split: if_splits)
  with f show ?thesis by simp
qed

section \<open>While the belief state is open the overlay is shown\<close>









































section \<open>The claims\<close>




text \<open>
  C2. The global-symbol probe is never installed. \<^verbatim>\<open>blockCommonBypassMethods\<close> is called only
  from the \<^verbatim>\<open>setupAdvancedProtection\<close> of line 250, which the declaration of line 522
  replaces: after loading, the pending timers are the four probes of
  \<^verbatim>\<open>startContinuousDetection\<close>, whereas the replaced method would have added the scan with
  period 2000; and with all six console helpers callable, none of the pending timers opens
  the belief state when it fires.
\<close>

theorem C2_probe_never_installed:
  "map callback (timers loaded_state) = [WindowSizeTick, ConsoleTick, TimingTick, InspectionTick]
   \<and> map (\<lambda>t. (callback t, period t)) (timers (setupAdvancedProtection_line250 loaded_state))
       = [(WindowSizeTick, 500), (ConsoleTick, 1000), (TimingTick, 2000), (InspectionTick, 1500),
          (GlobalSymbolTick, 2000)]
   \<and> isDevToolsOpen (after (run_task GlobalSymbolTick env_helpers loaded_state))
   \<and> \<not> isDevToolsOpen (after (step_fn env_helpers (Fire 1) loaded_state))
   \<and> \<not> isDevToolsOpen (after (step_fn env_helpers (Fire 2) loaded_state))
   \<and> \<not> isDevToolsOpen (after (step_fn env_helpers (Fire 3) loaded_state))
   \<and> \<not> isDevToolsOpen (after (step_fn env_helpers (Fire 4) loaded_state))"
  by (simp add: loaded_state_eq env_helpers_def suspiciousVars_def setupAdvancedProtection_line250_def
      blockCommonBypassMethods_def preventInspection_def monitorNetworkTab_def eval_defs
      after_andThen_eq)

text \<open>
  C3. In the Detected state, when both window gaps are below 100 the window-size probe
  schedules the re-check, a timeout of 1000 ms. In every reachable state, when the
  re-check runs with both gaps below 100 it clears the belief state and the
  protection-active flag, removes the overlay, resets the body's inline filter, opacity and
  pointer-events and leaves no console-spam timer. A step of the event loop that finds the
  belief state open and leaves it closed is the firing of a re-check timeout with both gaps
  below 100, and a step that is not the window-size probe schedules no re-check: every
  re-check pending after it was pending before.
\<close>

theorem C3_only_recheck_closes:
  "(isDevToolsOpen s \<and> heightDiff env < 100 \<and> widthDiff env < 100 \<longrightarrow>
      detectByWindowSize env s = Done (checkIfReallyClosed s)
      \<and> timers (checkIfReallyClosed s) = timers s @
          [\<lparr>tid = next_timer s, repeating = False, period = 1000, callback = RecheckTimeout\<rparr>])
   \<and> (reachable any_env s \<and> heightDiff env < 100 \<and> widthDiff env < 100 \<longrightarrow>
        \<not> isDevToolsOpen (after (recheckTimeout env s))
        \<and> \<not> protectionActive (after (recheckTimeout env s))
        \<and> getElementById overlay_id (after (recheckTimeout env s)) = None
        \<and> body_filter (after (recheckTimeout env s)) = ''''
        \<and> body_opacity (after (recheckTimeout env s)) = ''''
        \<and> body_pointerEvents (after (recheckTimeout env s)) = ''''
        \<and> spam_timers (after (recheckTimeout env s)) = [])
   \<and> (isDevToolsOpen s \<and> \<not> isDevToolsOpen (after (step_fn env st s)) \<longrightarrow>
        fires RecheckTimeout st s \<and> heightDiff env < 100 \<and> widthDiff env < 100)
   \<and> (\<not> fires WindowSizeTick st s \<longrightarrow>
        timers_sat RecheckTimeout (\<lambda>t. t \<in> set (timers s)) (after (step_fn env st s)))"
proof (intro conjI impI)
  assume a: "isDevToolsOpen s \<and> heightDiff env < 100 \<and> widthDiff env < 100"
  then show "detectByWindowSize env s = Done (checkIfReallyClosed s)"
    by (simp add: detectByWindowSize_def)
  show "timers (checkIfReallyClosed s) = timers s @
          [\<lparr>tid = next_timer s, repeating = False, period = 1000, callback = RecheckTimeout\<rparr>]"
    by (simp add: checkIfReallyClosed_def setTimeout_def)
next
  assume a: "reachable any_env s \<and> heightDiff env < 100 \<and> widthDiff env < 100"
  then have run: "recheckTimeout env s = deactivateProtection env s"
    by (simp add: recheckTimeout_def)
  note c = deactivateProtection_clears [of any_env s env]
  from a c show "\<not> isDevToolsOpen (after (recheckTimeout env s))" unfolding run by blast
  from a c show "\<not> protectionActive (after (recheckTimeout env s))" unfolding run by blast
  from a c show "getElementById overlay_id (after (recheckTimeout env s)) = None"
    unfolding run by blast
  from a c show "body_filter (after (recheckTimeout env s)) = ''''" unfolding run by blast
  from a c show "body_opacity (after (recheckTimeout env s)) = ''''" unfolding run by blast
  from a c show "body_pointerEvents (after (recheckTimeout env s)) = ''''"
    unfolding run by blast
  from a c show "spam_timers (after (recheckTimeout env s)) = []" unfolding run by blast
next
  assume a: "isDevToolsOpen s \<and> \<not> isDevToolsOpen (after (step_fn env st s))"
  then have "fires RecheckTimeout st s \<and> heightDiff env < 100 \<and> widthDiff env < 100"
    using closing_step by blast
  then show "fires RecheckTimeout st s" "heightDiff env < 100" "widthDiff env < 100"
    by blast+
next
  assume "\<not> fires WindowSizeTick st s"
  moreover have "timers_sat RecheckTimeout (\<lambda>t. t \<in> set (timers s)) s"
    by (simp add: timers_sat_def list_all_iff)
  ultimately show "timers_sat RecheckTimeout (\<lambda>t. t \<in> set (timers s)) (after (step_fn env st s))"
    by (intro timers_sat_step) simp_all
qed

theorem C3_only_recheck_closes_witness:
  "isDevToolsOpen detected_state \<and> heightDiff env_closed < 100 \<and> widthDiff env_closed < 100
   \<and> detectByWindowSize env_closed detected_state = Done (checkIfReallyClosed detected_state)
   \<and> reachable any_env recheck_pending_state
   \<and> getElementById overlay_id (after (recheckTimeout env_closed recheck_pending_state)) = None
   \<and> isDevToolsOpen recheck_pending_state
   \<and> \<not> isDevToolsOpen (after (step_fn env_closed (Fire 7) recheck_pending_state))
   \<and> fires RecheckTimeout (Fire 7) recheck_pending_state
   \<and> \<not> fires WindowSizeTick (Fire 7) recheck_pending_state
   \<and> timers_sat RecheckTimeout (\<lambda>t. t \<in> set (timers recheck_pending_state))
        (after (step_fn env_closed (Fire 7) recheck_pending_state))"
proof -
  have d: "isDevToolsOpen detected_state" "heightDiff env_closed < 100"
    "widthDiff env_closed < 100"
    by (simp_all add: detected_state_eq heightDiff_def widthDiff_def env_closed_def env_quiet_def)
  have r: "isDevToolsOpen recheck_pending_state"
    "\<not> isDevToolsOpen (after (step_fn env_closed (Fire 7) recheck_pending_state))"
    "\<not> fires WindowSizeTick (Fire 7) recheck_pending_state"
    by (simp_all add: recheck_pending_state_eq detected_state_eq fires_def eval_defs)
  note a = C3_only_recheck_closes [of detected_state env_closed "Fire 1"]
  note b = C3_only_recheck_closes [of recheck_pending_state env_closed "Fire 7"]
  from a d have 1: "detectByWindowSize env_closed detected_state
      = Done (checkIfReallyClosed detected_state)" by blast
  from b d recheck_pending_state_reachable
  have 2: "getElementById overlay_id (after (recheckTimeout env_closed recheck_pending_state))
      = None" by blast
  from b r have 3: "fires RecheckTimeout (Fire 7) recheck_pending_state" by blast
  from b r have 4: "timers_sat RecheckTimeout (\<lambda>t. t \<in> set (timers recheck_pending_state))
        (after (step_fn env_closed (Fire 7) recheck_pending_state))" by blast
  from d 1 recheck_pending_state_reachable 2 r(1,2) 3 r(3) 4 show ?thesis
    by (intro conjI)
qed



text \<open>
  C5. In every reachable state, running the deactivation path leaves no overlay node and no
  active-protection style node in the document, resets the body's inline filter, opacity
  and pointer-events to the empty string, removes the protection class, leaves no
  console-spam timer and no truthy timer handle, and sets the belief state and the
  protection-active flag to false. This holds whether or not the final console call throws.
\<close>

theorem C5_deactivation_clears:
  assumes "reachable any_env s"
  shows "getElementById overlay_id (after (deactivateProtection env s)) = None
         \<and> getElementById active_style_id (after (deactivateProtection env s)) = None
         \<and> body_filter (after (deactivateProtection env s)) = ''''
         \<and> body_opacity (after (deactivateProtection env s)) = ''''
         \<and> body_pointerEvents (after (deactivateProtection env s)) = ''''
         \<and> ''protection-active'' \<notin> set (body_classes (after (deactivateProtection env s)))
         \<and> spam_timers (after (deactivateProtection env s)) = []
         \<and> \<not> truthy (consoleSpamInterval (after (deactivateProtection env s)))
         \<and> \<not> isDevToolsOpen (after (deactivateProtection env s))
         \<and> \<not> protectionActive (after (deactivateProtection env s))"
  using assms by (rule deactivateProtection_clears)

theorem C5_deactivation_clears_witness:
  "reachable any_env detected_state
   \<and> getElementById overlay_id detected_state \<noteq> None
   \<and> spam_timers detected_state \<noteq> []
   \<and> getElementById overlay_id (after (deactivateProtection env_closed detected_state)) = None
   \<and> getElementById active_style_id (after (deactivateProtection env_closed detected_state)) = None
   \<and> body_filter (after (deactivateProtection env_closed detected_state)) = ''''
   \<and> spam_timers (after (deactivateProtection env_closed detected_state)) = []
   \<and> \<not> isDevToolsOpen (after (deactivateProtection env_closed detected_state))"
proof -
  have "getElementById overlay_id detected_state \<noteq> None"
    by (simp add: detected_state_eq getElementById_def document_nodes_def overlay_id_def)
  moreover have "spam_timers detected_state \<noteq> []"
    by (simp add: detected_state_eq spam_timers_def)
  ultimately show ?thesis
    using C5_deactivation_clears [OF detected_state_reachable, of env_closed]
      detected_state_reachable by simp
qed

text \<open>
  C6. In every reachable state, starting the console-spam task while one is running changes
  nothing, after a start exactly one console-spam timer exists however often the start is
  repeated, and the stop path changes nothing while no console-spam task is running.
\<close>

theorem C6_console_spam_idempotent:
  assumes "reachable any_env s"
  shows "(spam_timers s \<noteq> [] \<longrightarrow> startConsoleSpam s = s)
         \<and> length (spam_timers (startConsoleSpam s)) = 1
         \<and> startConsoleSpam (startConsoleSpam s) = startConsoleSpam s
         \<and> length (spam_timers (startConsoleSpam (startConsoleSpam s))) = 1
         \<and> (spam_timers s = [] \<longrightarrow> stopConsoleSpam s = s)
         \<and> stopConsoleSpam (stopConsoleSpam s) = stopConsoleSpam s"
proof -
  have tm: "inv_tm s" using assms by (rule inv_tm_reachable)
  then have tm': "inv_tm (startConsoleSpam s)" by (rule inv_tm_startConsoleSpam)
  have t': "truthy (consoleSpamInterval (startConsoleSpam s))"
    using tm by (rule startConsoleSpam_truthy)
  then have again: "startConsoleSpam (startConsoleSpam s) = startConsoleSpam s"
    by (simp add: startConsoleSpam_def [of "startConsoleSpam s"])
  have "spam_timers (startConsoleSpam s) \<noteq> []"
    using t' tm' by (simp add: inv_tm_truthy)
  moreover have "length (spam_timers (startConsoleSpam s)) \<le> 1"
    using tm' by (rule inv_tm_one_spam)
  ultimately have one: "length (spam_timers (startConsoleSpam s)) = 1"
    by (cases "spam_timers (startConsoleSpam s)") simp_all
  have running: "startConsoleSpam s = s" if "spam_timers s \<noteq> []"
    using that tm by (simp add: startConsoleSpam_def inv_tm_truthy)
  have idle: "stopConsoleSpam s = s" if "spam_timers s = []"
    using that tm by (simp add: stopConsoleSpam_def inv_tm_truthy)
  have stop2: "stopConsoleSpam (stopConsoleSpam s) = stopConsoleSpam s"
    using stopConsoleSpam_falsy [of s] by (simp add: stopConsoleSpam_def [of "stopConsoleSpam s"])
  from running one again idle stop2 show ?thesis by simp
qed

theorem C6_console_spam_idempotent_witness:
  "reachable any_env detected_state \<and> spam_timers detected_state \<noteq> []
   \<and> startConsoleSpam detected_state = detected_state
   \<and> length (spam_timers (startConsoleSpam detected_state)) = 1
   \<and> reachable any_env loaded_state \<and> spam_timers loaded_state = []
   \<and> stopConsoleSpam loaded_state = loaded_state
   \<and> length (spam_timers (startConsoleSpam (startConsoleSpam loaded_state))) = 1"
proof -
  have a: "spam_timers detected_state \<noteq> []"
    by (simp add: detected_state_eq spam_timers_def)
  have b: "spam_timers loaded_state = []"
    by (simp add: loaded_state_eq spam_timers_def)
  note d = C6_console_spam_idempotent [OF detected_state_reachable]
  note l = C6_console_spam_idempotent [OF loaded_state_reachable]
  from d a have d1: "startConsoleSpam detected_state = detected_state" by blast
  from d have d2: "length (spam_timers (startConsoleSpam detected_state)) = 1" by blast
  from l b have l1: "stopConsoleSpam loaded_state = loaded_state" by blast
  from l have l2: "length (spam_timers (startConsoleSpam (startConsoleSpam loaded_state))) = 1"
    by blast
  from detected_state_reachable a d1 d2 loaded_state_reachable b l1 l2 show ?thesis
    by (intro conjI)
qed






text \<open>
  C9 (amended). The console calls of the console-spam callback and the clipboard write of
  the PrintScreen listener are guarded: the callback never throws, and when the console
  throws while protection is active it leaves the state as it was; a throwing clipboard
  write leaves the state as it was, and the PrintScreen listener throws only when the
  unguarded console call of the detection entry point does.
\<close>

theorem C9_guards_amended:
  "\<not> threw (spamTick env s)
   \<and> (consoleThrows env \<and> protectionActive s \<longrightarrow> spamTick env s = Done s)
   \<and> (clipboardThrows env \<longrightarrow> tryWriteText env txt s = s)
   \<and> (isDevToolsOpen s \<and> clipboardThrows env \<longrightarrow> keyupListener env e s = Done (e, s))
   \<and> (threw (keyupListener env e s) \<longrightarrow> consoleThrows env \<and> \<not> isDevToolsOpen s)"
proof (intro conjI impI)
  show "\<not> threw (spamTick env s)"
    by (subst spamTick_Done) simp
  show "spamTick env s = Done s" if "consoleThrows env \<and> protectionActive s"
    using that by (simp add: spamTick_def spamBody_def console_clear_def)
  show "tryWriteText env txt s = s" if "clipboardThrows env"
    using that by (simp add: tryWriteText_def writeText_def)
  show "keyupListener env e s = Done (e, s)" if "isDevToolsOpen s \<and> clipboardThrows env"
    using that
    by (simp add: keyupListener_def handleDevToolsDetected_noop tryWriteText_def writeText_def)
  show "consoleThrows env" "\<not> isDevToolsOpen s" if "threw (keyupListener env e s)"
    using that
    by (simp_all add: keyupListener_def threw_andThen handleDevToolsDetected_threw
        split: if_splits)
qed

theorem C9_guards_amended_witness:
  "consoleThrows env_console_broken \<and> protectionActive detected_state
   \<and> spamTick env_console_broken detected_state = Done detected_state
   \<and> clipboardThrows env_clipboard_broken \<and> isDevToolsOpen detected_state
   \<and> keyupListener env_clipboard_broken printscreen_event detected_state
       = Done (printscreen_event, detected_state)
   \<and> threw (keyupListener env_console_broken printscreen_event loaded_state)
   \<and> \<not> isDevToolsOpen loaded_state"
proof -
  have h: "consoleThrows env_console_broken" "protectionActive detected_state"
    "clipboardThrows env_clipboard_broken" "isDevToolsOpen detected_state"
    by (simp_all add: env_console_broken_def env_clipboard_broken_def env_quiet_def
        detected_state_eq)
  have t: "threw (keyupListener env_console_broken printscreen_event loaded_state)"
    by (simp add: keyupListener_def printscreen_event_def sample_event_def threw_andThen
        handleDevToolsDetected_threw env_console_broken_def env_quiet_def loaded_state_eq)
  from C9_guards_amended [of env_console_broken detected_state] h
  have 1: "spamTick env_console_broken detected_state = Done detected_state" by blast
  from C9_guards_amended [of env_clipboard_broken detected_state _ printscreen_event] h
  have 2: "keyupListener env_clipboard_broken printscreen_event detected_state
       = Done (printscreen_event, detected_state)" by blast
  from C9_guards_amended [of env_console_broken loaded_state _ printscreen_event] t
  have 3: "\<not> isDevToolsOpen loaded_state" by blast
  from h(1,2) 1 h(3,4) 2 t 3 show ?thesis by (intro conjI)
qed

text \<open>
  The claim as stated fails: with a console that throws, pressing F12 on the loaded page
  makes the key-down listener throw, in the unguarded \<^verbatim>\<open>console.log\<close> of
  \<^verbatim>\<open>handleDevToolsDetected\<close>, after the belief state has been set: the exception escapes
  and the state is not the prior one.
\<close>

theorem C9_counterexample:
  "threw (dispatch env_console_broken f12_event loaded_state)
   \<and> \<not> isDevToolsOpen loaded_state
   \<and> isDevToolsOpen (snd (after (dispatch env_console_broken f12_event loaded_state)))
   \<and> getElementById overlay_id (snd (after (dispatch env_console_broken f12_event loaded_state)))
       = None"
  by (simp add: loaded_state_eq f12_event_def eval_defs after_andThen_eq)

text \<open>
  C10. While protection is inactive, dispatching a copy event runs no listener that cancels
  it or rewrites its clipboard payload, and dispatching a drag-start event whose target is
  not an image runs no listener that cancels it: the event and the state come back unchanged.
\<close>

theorem C10_idle_copy_and_drag_untouched:
  assumes "\<not> protectionActive s"
  shows "(etype e = Copy \<longrightarrow> dispatch env e s = Done (e, s))
         \<and> (etype e = DragStart \<and> targetTag e \<noteq> ''IMG'' \<longrightarrow> dispatch env e s = Done (e, s))"
proof -
  have copy: "run_listeners hs env e s = Done (e, s)"
    if "\<forall>h \<in> set hs. handler_type h = Copy" for hs
    using that
  proof (induction hs)
    case Nil
    then show ?case by simp
  next
    case (Cons h hs)
    then have "h = CopyHandler" by (cases h) simp_all
    with Cons assms show ?case by (simp add: copyListener_def)
  qed
  have drag: "run_listeners hs env e s = Done (e, s)"
    if "\<forall>h \<in> set hs. handler_type h = DragStart" and "targetTag e \<noteq> ''IMG''" for hs
    using that
  proof (induction hs)
    case Nil
    then show ?case by simp
  next
    case (Cons h hs)
    then have "h = DragStartHandler" by (cases h) simp_all
    with Cons assms show ?case by (simp add: dragstartListener_def)
  qed
  show ?thesis
    by (auto simp: dispatch_def intro: copy drag)
qed

theorem C10_idle_copy_and_drag_untouched_witness:
  "\<not> protectionActive loaded_state
   \<and> dispatch env_quiet (sample_event Copy) loaded_state = Done (sample_event Copy, loaded_state)
   \<and> dispatch env_quiet (sample_event DragStart) loaded_state
       = Done (sample_event DragStart, loaded_state)"
proof -
  have a: "\<not> protectionActive loaded_state" by (simp add: loaded_state_eq)
  show ?thesis
    using C10_idle_copy_and_drag_untouched [OF a, of "sample_event Copy" env_quiet]
      C10_idle_copy_and_drag_untouched [OF a, of "sample_event DragStart" env_quiet] a
    by (simp add: sample_event_def)
qed

end
